theory Spec2Isabelle
  imports Complex_Main "HOL-Library.Log_Nat"
begin

section \<open>JavaScript values and built-ins used by the code\<close>

subsection \<open>Numbers\<close>

text \<open>
  Identifiers, offsets and timestamps are integer-valued JavaScript numbers that the code
  only copies, compares and increments; they are modelled as \<open>int\<close> (the counters stay far
  below \<open>2^53\<close>, where integer arithmetic on doubles is exact). Decimal columns (\<open>price\<close>,
  \<open>rating\<close>, \<open>total\<close>) are strings of decimal digits in the code; a \<open>decimal\<close> is the
  rational number such a string denotes.

  The numbers the code calculates with (cart quantities, the checkout amounts, the sort
  keys) are binary64 values: a \<open>number\<close> is a finite double, given by the rational number it
  holds, or \<open>Infinity\<close>, \<open>-Infinity\<close> or \<open>NaN\<close>. The two zeros are not told apart: the code
  never divides and never prints a sign of zero. \<open>fl\<close> rounds a rational to the nearest
  value with 53 significant bits (ties to even, gradual underflow below \<open>2^-1022\<close>) as if
  the exponent had no upper bound. The largest double is \<open>(2^53 - 1) * 2^971\<close>; a rounded
  value \<open>m * 2^e\<close> with \<open>e > 971\<close>, or with \<open>e = 971\<close> and \<open>m = 2^53\<close>, is \<open>2^1024\<close> or more and
  becomes an infinity: \<open>round_number\<close>.
\<close>

type_synonym decimal = rat

type_synonym double = rat

definition round_half_even :: "rat \<Rightarrow> int" where
  "round_half_even q =
     (let f = \<lfloor>q\<rfloor>; r = q - of_int f
      in if r < 1 / 2 then f
         else if 1 / 2 < r then f + 1
         else if even f then f else f + 1)"

definition binade :: "rat \<Rightarrow> int" where
  "binade a =
     (let (n, d) = quotient_of a;
          e0 = bitlen n - bitlen d - 53;
          e = (if 2 ^ 53 \<le> a / power_int 2 e0 then e0 + 1 else e0)
      in max e (- 1074))"

definition fl :: "rat \<Rightarrow> double" where
  "fl q =
     (if q = 0 then 0
      else let e = binade \<bar>q\<bar>;
               m = round_half_even (\<bar>q\<bar> / power_int 2 e)
           in sgn q * of_int m * power_int 2 e)"

datatype number = Finite double | PosInfinity | NegInfinity | NaN

definition overflows :: "rat \<Rightarrow> bool" where
  "overflows q =
     (q \<noteq> 0 \<and>
      (let e = binade \<bar>q\<bar>;
           m = round_half_even (\<bar>q\<bar> / power_int 2 e)
       in 971 < e \<or> (e = 971 \<and> m = 2 ^ 53)))"

definition round_number :: "rat \<Rightarrow> number" where
  "round_number q =
     (if overflows q then (if 0 < q then PosInfinity else NegInfinity) else Finite (fl q))"

text \<open>
  \<open>Number(s)\<close> for a decimal string, \<open>Number(null) = 0\<close>, the value of a possibly undefined
  operand of an arithmetic operator (\<open>undefined\<close> becomes \<open>NaN\<close>), a decimal literal of the
  program text, and the operators \<open>+\<close>, \<open>*\<close> and \<open><\<close> of IEEE 754.
\<close>

definition Number :: "decimal \<Rightarrow> number" where
  "Number s = round_number s"

definition Number_nullable :: "decimal option \<Rightarrow> number" where
  "Number_nullable s = (case s of None \<Rightarrow> Finite 0 | Some d \<Rightarrow> Number d)"

definition ToNumber :: "number option \<Rightarrow> number" where
  "ToNumber v = (case v of None \<Rightarrow> NaN | Some n \<Rightarrow> n)"

definition js_literal :: "rat \<Rightarrow> number" where
  "js_literal q = round_number q"

fun js_add :: "number \<Rightarrow> number \<Rightarrow> number" where
  "js_add NaN b = NaN"
| "js_add a NaN = NaN"
| "js_add (Finite x) (Finite y) = round_number (x + y)"
| "js_add PosInfinity NegInfinity = NaN"
| "js_add NegInfinity PosInfinity = NaN"
| "js_add PosInfinity b = PosInfinity"
| "js_add a PosInfinity = PosInfinity"
| "js_add NegInfinity b = NegInfinity"
| "js_add a NegInfinity = NegInfinity"

fun js_mul :: "number \<Rightarrow> number \<Rightarrow> number" where
  "js_mul NaN b = NaN"
| "js_mul a NaN = NaN"
| "js_mul (Finite x) (Finite y) = round_number (x * y)"
| "js_mul (Finite x) b =
     (if x = 0 then NaN else if (0 < x) = (b = PosInfinity) then PosInfinity else NegInfinity)"
| "js_mul a (Finite y) =
     (if y = 0 then NaN else if (0 < y) = (a = PosInfinity) then PosInfinity else NegInfinity)"
| "js_mul a b = (if a = b then PosInfinity else NegInfinity)"

text \<open>
  The place of a number other than \<open>NaN\<close> in the order of the extended reals; every finite
  double lies strictly between \<open>-2^1024\<close> and \<open>2^1024\<close>.
\<close>

definition rank :: "number \<Rightarrow> rat" where
  "rank a =
     (case a of Finite x \<Rightarrow> x | PosInfinity \<Rightarrow> 2 ^ 1024 | NegInfinity \<Rightarrow> - (2 ^ 1024)
      | NaN \<Rightarrow> 0)"

definition js_less :: "number \<Rightarrow> number \<Rightarrow> bool" where
  "js_less a b = (a \<noteq> NaN \<and> b \<noteq> NaN \<and> rank a < rank b)"

subsection \<open>Truthiness and optional chaining\<close>

definition truthy_number :: "int option \<Rightarrow> bool" where
  "truthy_number v = (case v of None \<Rightarrow> False | Some n \<Rightarrow> n \<noteq> 0)"

definition truthy_string :: "string option \<Rightarrow> bool" where
  "truthy_string v = (case v of None \<Rightarrow> False | Some s \<Rightarrow> s \<noteq> [])"

definition truthy_boolean :: "bool option \<Rightarrow> bool" where
  "truthy_boolean v = (case v of None \<Rightarrow> False | Some b \<Rightarrow> b)"

text \<open>\<open>options?.field\<close>: \<open>undefined\<close> when \<open>options\<close> itself is \<open>undefined\<close>.\<close>

definition optional_chain :: "'o option \<Rightarrow> ('o \<Rightarrow> 'a option) \<Rightarrow> 'a option" where
  "optional_chain obj field = (case obj of None \<Rightarrow> None | Some x \<Rightarrow> field x)"

subsection \<open>Strings\<close>

text \<open>
  Strings are sequences of characters; \<open>toLowerCase\<close> is modelled on the ASCII letters
  (the catalogue is ASCII), \<open>includes\<close> is the contiguous-substring test.
\<close>

definition toLowerCase_char :: "char \<Rightarrow> char" where
  "toLowerCase_char c =
     (let n = (of_char c :: nat) in if 65 \<le> n \<and> n \<le> 90 then char_of (n + 32) else c)"

definition toLowerCase :: "string \<Rightarrow> string" where
  "toLowerCase s = map toLowerCase_char s"

fun startsWith :: "string \<Rightarrow> string \<Rightarrow> bool" where
  "startsWith s [] = True"
| "startsWith [] (c # cs) = False"
| "startsWith (x # xs) (c # cs) = (x = c \<and> startsWith xs cs)"

fun str_includes :: "string \<Rightarrow> string \<Rightarrow> bool" where
  "str_includes [] needle = startsWith [] needle"
| "str_includes (x # xs) needle = (startsWith (x # xs) needle \<or> str_includes xs needle)"

subsection \<open>Arrays\<close>

text \<open>
  \<open>Array.prototype.slice(start, end)\<close> on integer arguments: a negative index counts from
  the end, both indices are clamped to the array, and an empty range gives \<open>[]\<close>.
\<close>

definition js_slice :: "'a list \<Rightarrow> int \<Rightarrow> int \<Rightarrow> 'a list" where
  "js_slice xs start fin =
     (let len = int (length xs);
          k = (if start < 0 then max (len + start) 0 else min start len);
          final = (if fin < 0 then max (len + fin) 0 else min fin len)
      in take (nat (final - k)) (drop (nat k) xs))"

text \<open>
  \<open>Array.prototype.sort(cmp)\<close> is stable. Each comparator of the code is a difference of
  one numeric key, \<open>key(a) - key(b)\<close> for ascending and \<open>key(b) - key(a)\<close> for descending
  order, so the result is the stable sort by that key (negated for descending order).
  Where the key is \<open>Number(...)\<close> of a decimal column it is never \<open>NaN\<close>, and the difference
  is negative, zero (or \<open>NaN\<close> for two equal infinities, which \<open>sort\<close> reads as zero) or
  positive as the \<open>rank\<close> of the first key is below, equal to or above that of the second:
  the sort is the stable sort by \<open>rank\<close>.
\<close>

definition js_sort_asc :: "('a \<Rightarrow> 'k::linorder) \<Rightarrow> 'a list \<Rightarrow> 'a list" where
  "js_sort_asc key xs = sort_key key xs"

definition js_sort_desc :: "('a \<Rightarrow> 'k::{linorder,uminus}) \<Rightarrow> 'a list \<Rightarrow> 'a list" where
  "js_sort_desc key xs = sort_key (\<lambda>x. - key x) xs"

subsection \<open>Map\<close>

text \<open>
  A \<open>Map<number, V>\<close> keeps its entries in insertion order: \<open>set\<close> on a present key
  replaces the value in place, \<open>set\<close> on a new key appends, \<open>delete\<close> removes the entry.
\<close>

type_synonym 'v jsmap = "(int \<times> 'v) list"

definition jm_get :: "'v jsmap \<Rightarrow> int \<Rightarrow> 'v option" where
  "jm_get m k = map_of m k"

fun jm_set :: "'v jsmap \<Rightarrow> int \<Rightarrow> 'v \<Rightarrow> 'v jsmap" where
  "jm_set [] k v = [(k, v)]"
| "jm_set (e # m) k v = (if fst e = k then (k, v) # m else e # jm_set m k v)"

definition jm_delete :: "'v jsmap \<Rightarrow> int \<Rightarrow> 'v jsmap" where
  "jm_delete m k = filter (\<lambda>e. fst e \<noteq> k) m"

definition jm_values :: "'v jsmap \<Rightarrow> 'v list" where
  "jm_values m = map snd m"

definition jm_size :: "'v jsmap \<Rightarrow> int" where
  "jm_size m = int (length m)"

section \<open>The schema (shared/schema.ts)\<close>

text \<open>
  An insert type is the row without the generated columns; the row type extends it, as
  \<open>{...insert, id}\<close> does. Nullable columns are options. The seed rows carry
  \<open>createdAt\<close> themselves. The quantity of a cart item has a column default, so the
  insert type allows it to be absent, and what is stored is what was passed: an option.
  Record fields share one name space, so each field has the
  prefix of its table: \<open>p_\<close> product, \<open>c_\<close> category, \<open>ci_\<close> cart item, \<open>o_\<close> order,
  \<open>oi_\<close> order item. The joined rows that the read methods return extend the row by the
  \<open>product\<close> (which \<open>getProduct\<close> may answer with \<open>undefined\<close>) or by the \<open>items\<close>.
\<close>

record InsertProduct =
  p_name :: string
  p_description :: string
  p_price :: decimal
  p_oldPrice :: "decimal option"
  p_imageUrl :: string
  p_categoryId :: int
  p_rating :: "decimal option"
  p_reviews :: "int option"
  p_inStock :: "bool option"
  p_isNew :: "bool option"
  p_isFeatured :: "bool option"
  p_isPopular :: "bool option"
  p_isSale :: "bool option"
  p_createdAt :: int

record Product = InsertProduct +
  p_id :: int

record InsertCategory =
  c_name :: string
  c_icon :: string

record Category = InsertCategory +
  c_id :: int

record InsertCartItem =
  ci_userId :: int
  ci_productId :: int
  ci_quantity :: "number option"

record CartItem = InsertCartItem +
  ci_id :: int

record CartItemWithProduct = CartItem +
  ci_product :: "Product option"

record InsertOrder =
  o_userId :: int
  o_total :: decimal
  o_status :: string

record Order = InsertOrder +
  o_id :: int
  o_createdAt :: int

record InsertOrderItem =
  oi_orderId :: int
  oi_productId :: int
  oi_quantity :: int
  oi_price :: decimal

record OrderItem = InsertOrderItem +
  oi_id :: int

record OrderItemWithProduct = OrderItem +
  oi_product :: "Product option"

record OrderWithItems = Order +
  o_items :: "OrderItemWithProduct list"

section \<open>The in-memory store (server/storage.ts)\<close>

text \<open>
  The fields of \<open>MemStorage\<close> that the catalogue, cart and order methods use. The user
  table and the session store play no part in them and are left out.
\<close>

record store =
  products :: "Product jsmap"
  categories :: "Category jsmap"
  cartItems :: "CartItem jsmap"
  orders :: "Order jsmap"
  orderItems :: "OrderItem jsmap"
  productId :: int
  categoryId :: int
  cartItemId :: int
  orderId :: int
  orderItemId :: int

subsection \<open>Construction and seed data\<close>

definition categoryData :: "InsertCategory list" where
  "categoryData =
    [\<lparr>c_name = ''Electronics'', c_icon = ''laptop''\<rparr>,
     \<lparr>c_name = ''Clothing'', c_icon = ''tshirt''\<rparr>,
     \<lparr>c_name = ''Home & Kitchen'', c_icon = ''home''\<rparr>,
     \<lparr>c_name = ''Beauty'', c_icon = ''spa''\<rparr>,
     \<lparr>c_name = ''Sports'', c_icon = ''running''\<rparr>]"

definition productData :: "InsertProduct list" where
  "productData =
    [\<lparr>p_name = ''Wireless Headphones'',
      p_description = ''Premium sound quality with noise cancellation'',
      p_price = 12999 / 100, p_oldPrice = Some (15999 / 100),
      p_imageUrl = ''https://images.unsplash.com/photo-1505740420928-5e560c06d30e?ixlib=rb-4.0.3&ixid=M3wxMjA3fDB8MHxwaG90by1wYWdlfHx8fGVufDB8fHx8fA%3D%3D&auto=format&fit=crop&w=1470&q=80'',
      p_categoryId = 1, p_rating = Some (9 / 2), p_reviews = Some 128,
      p_inStock = Some True, p_isNew = Some True, p_isFeatured = Some True,
      p_isPopular = Some False, p_isSale = Some False, p_createdAt = 1677628800000\<rparr>,
     \<lparr>p_name = ''Smart Watch Series 5'',
      p_description = ''Fitness tracking with heart rate monitor'',
      p_price = 8999 / 100, p_oldPrice = Some (11999 / 100),
      p_imageUrl = ''https://images.unsplash.com/photo-1523275335684-37898b6baf30?ixlib=rb-4.0.3&ixid=M3wxMjA3fDB8MHxwaG90by1wYWdlfHx8fGVufDB8fHx8fA%3D%3D&auto=format&fit=crop&w=1399&q=80'',
      p_categoryId = 1, p_rating = Some (4), p_reviews = Some 96,
      p_inStock = Some True, p_isNew = Some False, p_isFeatured = Some True,
      p_isPopular = Some False, p_isSale = Some True, p_createdAt = 1676419200000\<rparr>,
     \<lparr>p_name = ''Slim Fit Dress Shirt'',
      p_description = ''100% cotton, wrinkle-resistant fabric'',
      p_price = 4999 / 100, p_oldPrice = None,
      p_imageUrl = ''https://images.unsplash.com/photo-1594035910387-fea47794261f?ixlib=rb-4.0.3&ixid=M3wxMjA3fDB8MHxwaG90by1wYWdlfHx8fGVufDB8fHx8fA%3D%3D&auto=format&fit=crop&w=1470&q=80'',
      p_categoryId = 2, p_rating = Some (49 / 10), p_reviews = Some 215,
      p_inStock = Some True, p_isNew = Some False, p_isFeatured = Some True,
      p_isPopular = Some False, p_isSale = Some False, p_createdAt = 1674172800000\<rparr>,
     \<lparr>p_name = ''Urban Runner Sneakers'',
      p_description = ''Lightweight with cushioned insole'',
      p_price = 7999 / 100, p_oldPrice = Some (9999 / 100),
      p_imageUrl = ''https://images.unsplash.com/photo-1525904097878-94fb15835963?ixlib=rb-4.0.3&ixid=M3wxMjA3fDB8MHxwaG90by1wYWdlfHx8fGVufDB8fHx8fA%3D%3D&auto=format&fit=crop&w=1470&q=80'',
      p_categoryId = 2, p_rating = Some (21 / 5), p_reviews = Some 175,
      p_inStock = Some True, p_isNew = Some False, p_isFeatured = Some True,
      p_isPopular = Some True, p_isSale = Some False, p_createdAt = 1675209600000\<rparr>,
     \<lparr>p_name = ''Designer Sunglasses'',
      p_description = ''UV protection with stylish frame'',
      p_price = 5999 / 100, p_oldPrice = None,
      p_imageUrl = ''https://images.unsplash.com/photo-1572635196237-14b3f281503f?ixlib=rb-4.0.3&ixid=M3wxMjA3fDB8MHxwaG90by1wYWdlfHx8fGVufDB8fHx8fA%3D%3D&auto=format&fit=crop&w=1160&q=80'',
      p_categoryId = 2, p_rating = Some (4), p_reviews = Some 88,
      p_inStock = Some True, p_isNew = Some True, p_isFeatured = Some False,
      p_isPopular = Some False, p_isSale = Some False, p_createdAt = 1678406400000\<rparr>,
     \<lparr>p_name = ''Outdoor Adventure Backpack'',
      p_description = ''Durable, water-resistant design'',
      p_price = 7999 / 100, p_oldPrice = None,
      p_imageUrl = ''https://images.unsplash.com/photo-1560343090-f0409e92791a?ixlib=rb-4.0.3&ixid=M3wxMjA3fDB8MHxwaG90by1wYWdlfHx8fGVufDB8fHx8fA%3D%3D&auto=format&fit=crop&w=1364&q=80'',
      p_categoryId = 5, p_rating = Some (22 / 5), p_reviews = Some 112,
      p_inStock = Some True, p_isNew = Some True, p_isFeatured = Some False,
      p_isPopular = Some False, p_isSale = Some False, p_createdAt = 1677974400000\<rparr>,
     \<lparr>p_name = ''Smart Coffee Maker'',
      p_description = ''Programmable with app control'',
      p_price = 12999 / 100, p_oldPrice = None,
      p_imageUrl = ''https://images.unsplash.com/photo-1631729371254-42c2892f0e6e?ixlib=rb-4.0.3&ixid=M3wxMjA3fDB8MHxwaG90by1wYWdlfHx8fGVufDB8fHx8fA%3D%3D&auto=format&fit=crop&w=1470&q=80'',
      p_categoryId = 3, p_rating = Some (47 / 10), p_reviews = Some 143,
      p_inStock = Some True, p_isNew = Some True, p_isFeatured = Some False,
      p_isPopular = Some False, p_isSale = Some False, p_createdAt = 1678838400000\<rparr>,
     \<lparr>p_name = ''Performance Running Shoes'',
      p_description = ''Lightweight with responsive cushioning'',
      p_price = 11999 / 100, p_oldPrice = None,
      p_imageUrl = ''https://images.unsplash.com/photo-1542291026-7eec264c27ff?ixlib=rb-4.0.3&ixid=M3wxMjA3fDB8MHxwaG90by1wYWdlfHx8fGVufDB8fHx8fA%3D%3D&auto=format&fit=crop&w=1470&q=80'',
      p_categoryId = 5, p_rating = Some (24 / 5), p_reviews = Some 201,
      p_inStock = Some True, p_isNew = Some True, p_isFeatured = Some False,
      p_isPopular = Some False, p_isSale = Some False, p_createdAt = 1679270400000\<rparr>,
     \<lparr>p_name = ''Premium Smartwatch'',
      p_description = ''Health tracking with AMOLED display'',
      p_price = 19999 / 100, p_oldPrice = None,
      p_imageUrl = ''https://images.unsplash.com/photo-1546868871-7041f2a55e12?ixlib=rb-4.0.3&ixid=M3wxMjA3fDB8MHxwaG90by1wYWdlfHx8fGVufDB8fHx8fA%3D%3D&auto=format&fit=crop&w=1064&q=80'',
      p_categoryId = 1, p_rating = Some (49 / 10), p_reviews = Some 188,
      p_inStock = Some True, p_isNew = Some True, p_isFeatured = Some False,
      p_isPopular = Some False, p_isSale = Some False, p_createdAt = 1679702400000\<rparr>,
     \<lparr>p_name = ''Luxury Skincare Set'',
      p_description = ''Organic ingredients, vegan-friendly'',
      p_price = 8999 / 100, p_oldPrice = None,
      p_imageUrl = ''https://images.unsplash.com/photo-1618354691373-d851c5c3a990?ixlib=rb-4.0.3&ixid=M3wxMjA3fDB8MHxwaG90by1wYWdlfHx8fGVufDB8fHx8fA%3D%3D&auto=format&fit=crop&w=1015&q=80'',
      p_categoryId = 4, p_rating = Some (23 / 5), p_reviews = Some 156,
      p_inStock = Some True, p_isNew = Some True, p_isFeatured = Some False,
      p_isPopular = Some False, p_isSale = Some False, p_createdAt = 1679097600000\<rparr>,
     \<lparr>p_name = ''Aromatherapy Candle Set'',
      p_description = ''Natural soy wax with essential oils'',
      p_price = 3999 / 100, p_oldPrice = None,
      p_imageUrl = ''https://images.unsplash.com/photo-1600086827875-a63b01f1335c?ixlib=rb-4.0.3&ixid=M3wxMjA3fDB8MHxwaG90by1wYWdlfHx8fGVufDB8fHx8fA%3D%3D&auto=format&fit=crop&w=774&q=80'',
      p_categoryId = 3, p_rating = Some (43 / 10), p_reviews = Some 124,
      p_inStock = Some True, p_isNew = Some True, p_isFeatured = Some False,
      p_isPopular = Some False, p_isSale = Some False, p_createdAt = 1679443200000\<rparr>,
     \<lparr>p_name = ''Waterproof Bluetooth Speaker'',
      p_description = ''24-hour battery with deep bass'',
      p_price = 6999 / 100, p_oldPrice = None,
      p_imageUrl = ''https://images.unsplash.com/photo-1585155770447-2f66e2a397b5?ixlib=rb-4.0.3&ixid=M3wxMjA3fDB8MHxwaG90by1wYWdlfHx8fGVufDB8fHx8fA%3D%3D&auto=format&fit=crop&w=1932&q=80'',
      p_categoryId = 1, p_rating = Some (9 / 2), p_reviews = Some 134,
      p_inStock = Some True, p_isNew = Some True, p_isFeatured = Some False,
      p_isPopular = Some False, p_isSale = Some False, p_createdAt = 1679961600000\<rparr>,
     \<lparr>p_name = ''Pro Football Cleats'',
      p_description = ''High traction, lightweight cleats for optimal performance on the field'',
      p_price = 8999 / 100, p_oldPrice = Some (11999 / 100),
      p_imageUrl = ''https://m.media-amazon.com/images/I/71Z8tlCrM6L._AC_SL1500_.jpg'',
      p_categoryId = 5, p_rating = Some (47 / 10), p_reviews = Some 156,
      p_inStock = Some True, p_isNew = Some True, p_isFeatured = Some True,
      p_isPopular = Some False, p_isSale = Some True, p_createdAt = 1680048000000\<rparr>,
     \<lparr>p_name = ''Team Football Jersey'',
      p_description = ''Official team jersey with moisture-wicking technology'',
      p_price = 6999 / 100, p_oldPrice = None,
      p_imageUrl = ''https://printfactory.com.ng/wp-content/uploads/2018/12/original-club-jersey-print-printfactory-ng.png'',
      p_categoryId = 5, p_rating = Some (9 / 2), p_reviews = Some 128,
      p_inStock = Some True, p_isNew = Some True, p_isFeatured = Some False,
      p_isPopular = Some True, p_isSale = Some False, p_createdAt = 1680134400000\<rparr>,
     \<lparr>p_name = ''Athletic Performance Socks'',
      p_description = ''Cushioned, anti-blister socks for all sports'',
      p_price = 1499 / 100, p_oldPrice = Some (1999 / 100),
      p_imageUrl = ''https://images.unsplash.com/photo-1586350977771-b3b0abd50c82?ixlib=rb-4.0.3&ixid=M3wxMjA3fDB8MHxwaG90by1wYWdlfHx8fGVufDB8fHx8fA%3D%3D&auto=format&fit=crop&w=1470&q=80'',
      p_categoryId = 5, p_rating = Some (43 / 10), p_reviews = Some 98,
      p_inStock = Some True, p_isNew = Some False, p_isFeatured = Some False,
      p_isPopular = Some False, p_isSale = Some True, p_createdAt = 1678838400000\<rparr>,
     \<lparr>p_name = ''Premium Knife Set'',
      p_description = ''Professional grade stainless steel knife set with wooden block'',
      p_price = 12999 / 100, p_oldPrice = Some (15999 / 100),
      p_imageUrl = ''https://images.unsplash.com/photo-1593618998160-e34014e67546?ixlib=rb-4.0.3&ixid=M3wxMjA3fDB8MHxwaG90by1wYWdlfHx8fGVufDB8fHx8fA%3D%3D&auto=format&fit=crop&w=1470&q=80'',
      p_categoryId = 3, p_rating = Some (24 / 5), p_reviews = Some 187,
      p_inStock = Some True, p_isNew = Some True, p_isFeatured = Some True,
      p_isPopular = Some False, p_isSale = Some True, p_createdAt = 1679702400000\<rparr>,
     \<lparr>p_name = ''Silicone Cooking Utensil Set'',
      p_description = ''Heat-resistant, non-stick silicone utensils for everyday cooking'',
      p_price = 3499 / 100, p_oldPrice = None,
      p_imageUrl = ''https://images.unsplash.com/photo-1639544799091-1c1aeeff5553?ixlib=rb-4.0.3&ixid=M3wxMjA3fDB8MHxwaG90by1wYWdlfHx8fGVufDB8fHx8fA%3D%3D&auto=format&fit=crop&w=1974&q=80'',
      p_categoryId = 3, p_rating = Some (23 / 5), p_reviews = Some 134,
      p_inStock = Some True, p_isNew = Some False, p_isFeatured = Some False,
      p_isPopular = Some True, p_isSale = Some False, p_createdAt = 1676851200000\<rparr>,
     \<lparr>p_name = ''Digital Kitchen Scale'',
      p_description = ''Precise measurements for all your cooking and baking needs'',
      p_price = 1999 / 100, p_oldPrice = Some (2499 / 100),
      p_imageUrl = ''https://images.unsplash.com/photo-1558705438-2908eda7d172?ixlib=rb-4.0.3&ixid=M3wxMjA3fDB8MHxwaG90by1wYWdlfHx8fGVufDB8fHx8fA%3D%3D&auto=format&fit=crop&w=1470&q=80'',
      p_categoryId = 3, p_rating = Some (22 / 5), p_reviews = Some 112,
      p_inStock = Some True, p_isNew = Some False, p_isFeatured = Some False,
      p_isPopular = Some False, p_isSale = Some True, p_createdAt = 1673740800000\<rparr>,
     \<lparr>p_name = ''Essential Cotton T-Shirt'',
      p_description = ''Soft, breathable 100% cotton t-shirt in a variety of colors'',
      p_price = 1999 / 100, p_oldPrice = None,
      p_imageUrl = ''https://images.unsplash.com/photo-1521572163474-6864f9cf17ab?ixlib=rb-4.0.3&ixid=M3wxMjA3fDB8MHxwaG90by1wYWdlfHx8fGVufDB8fHx8fA%3D%3D&auto=format&fit=crop&w=1480&q=80'',
      p_categoryId = 2, p_rating = Some (22 / 5), p_reviews = Some 245,
      p_inStock = Some True, p_isNew = Some False, p_isFeatured = Some False,
      p_isPopular = Some True, p_isSale = Some False, p_createdAt = 1675987200000\<rparr>,
     \<lparr>p_name = ''Comfort Fit Joggers'',
      p_description = ''Casual, tapered joggers with elastic waistband and pockets'',
      p_price = 3999 / 100, p_oldPrice = Some (4999 / 100),
      p_imageUrl = ''https://images.unsplash.com/photo-1515110371136-7e393289662c?ixlib=rb-4.0.3&ixid=M3wxMjA3fDB8MHxwaG90by1wYWdlfHx8fGVufDB8fHx8fA%3D%3D&auto=format&fit=crop&w=1326&q=80'',
      p_categoryId = 2, p_rating = Some (47 / 10), p_reviews = Some 178,
      p_inStock = Some True, p_isNew = Some True, p_isFeatured = Some True,
      p_isPopular = Some False, p_isSale = Some True, p_createdAt = 1677974400000\<rparr>]"

definition empty_store :: store where
  "empty_store =
     \<lparr>products = [], categories = [], cartItems = [], orders = [], orderItems = [],
      productId = 1, categoryId = 1, cartItemId = 1, orderId = 1, orderItemId = 1\<rparr>"

definition seed_category :: "InsertCategory \<Rightarrow> store \<Rightarrow> store" where
  "seed_category category st =
     (let id' = categoryId st
      in st\<lparr>categoryId := id' + 1,
            categories :=
              jm_set (categories st) id' (InsertCategory.extend category (Category.fields id'))\<rparr>)"

definition seed_product :: "InsertProduct \<Rightarrow> store \<Rightarrow> store" where
  "seed_product product st =
     (let id' = productId st
      in st\<lparr>productId := id' + 1,
            products :=
              jm_set (products st) id' (InsertProduct.extend product (Product.fields id'))\<rparr>)"

definition seedData :: "store \<Rightarrow> store" where
  "seedData st = fold seed_product productData (fold seed_category categoryData st)"

text \<open>\<open>new MemStorage()\<close>: empty tables, counters at 1, then the seed.\<close>

definition new_MemStorage :: store where
  "new_MemStorage = seedData empty_store"

subsection \<open>Product methods\<close>

definition getProduct :: "store \<Rightarrow> int \<Rightarrow> Product option" where
  "getProduct st id' = jm_get (products st) id'"

record product_options =
  po_categoryId :: "int option"
  po_featured :: "bool option"
  po_limit :: "int option"
  po_offset :: "int option"
  po_search :: "string option"
  po_sort :: "string option"

text \<open>
  The body of \<open>getProducts\<close>, statement by statement: the three filters, each under its
  truthiness test, the \<open>switch\<close> on a truthy \<open>sort\<close>, and the slice when both \<open>offset\<close> and
  \<open>limit\<close> are defined.
\<close>

definition getProducts :: "store \<Rightarrow> product_options option \<Rightarrow> Product list" where
  "getProducts st options =
     (let results = jm_values (products st);
          results =
            (if truthy_number (optional_chain options po_categoryId)
             then filter (\<lambda>p. Some (p_categoryId p) = optional_chain options po_categoryId) results
             else results);
          results =
            (if truthy_boolean (optional_chain options po_featured)
             then filter (\<lambda>p. truthy_boolean (p_isFeatured p)) results
             else results);
          results =
            (case optional_chain options po_search of
               None \<Rightarrow> results
             | Some s \<Rightarrow>
                 if s = [] then results
                 else (let search = toLowerCase s
                       in filter (\<lambda>p. str_includes (toLowerCase (p_name p)) search \<or>
                                       str_includes (toLowerCase (p_description p)) search) results));
          results =
            (case optional_chain options po_sort of
               None \<Rightarrow> results
             | Some sort' \<Rightarrow>
                 if sort' = [] then results
                 else if sort' = ''price-asc''
                   then js_sort_asc (\<lambda>p. rank (Number (p_price p))) results
                 else if sort' = ''price-desc''
                   then js_sort_desc (\<lambda>p. rank (Number (p_price p))) results
                 else if sort' = ''newest'' then js_sort_desc p_createdAt results
                 else if sort' = ''rating''
                   then js_sort_desc (\<lambda>p. rank (Number_nullable (p_rating p))) results
                 else js_sort_asc p_id results);
          results =
            (case optional_chain options po_offset of
               None \<Rightarrow> results
             | Some offset \<Rightarrow>
                 (case optional_chain options po_limit of
                    None \<Rightarrow> results
                  | Some limit \<Rightarrow> js_slice results offset (offset + limit)))
      in results)"

record count_options =
  co_categoryId :: "int option"
  co_search :: "string option"

definition getProductCount :: "store \<Rightarrow> count_options option \<Rightarrow> int" where
  "getProductCount st options =
     (let count = jm_size (products st)
      in if truthy_number (optional_chain options co_categoryId) \<or>
            truthy_string (optional_chain options co_search)
         then
           (let filteredProducts = jm_values (products st);
                filteredProducts =
                  (if truthy_number (optional_chain options co_categoryId)
                   then filter (\<lambda>p. Some (p_categoryId p) = optional_chain options co_categoryId)
                          filteredProducts
                   else filteredProducts);
                filteredProducts =
                  (case optional_chain options co_search of
                     None \<Rightarrow> filteredProducts
                   | Some s \<Rightarrow>
                       if s = [] then filteredProducts
                       else (let search = toLowerCase s
                             in filter (\<lambda>p. str_includes (toLowerCase (p_name p)) search \<or>
                                             str_includes (toLowerCase (p_description p)) search)
                                  filteredProducts))
            in int (length filteredProducts))
         else count)"

text \<open>
  The count query that belongs to a product query: \<open>getProductCount\<close> reads \<open>categoryId\<close>
  and \<open>search\<close> only, and the \<open>/api/products\<close> handler passes exactly these two fields
  of the query it has just given to \<open>getProducts\<close>.
\<close>

definition count_options_of :: "product_options \<Rightarrow> count_options" where
  "count_options_of opts = \<lparr>co_categoryId = po_categoryId opts, co_search = po_search opts\<rparr>"

definition without_paging :: "product_options \<Rightarrow> product_options" where
  "without_paging opts = opts\<lparr>po_limit := None, po_offset := None\<rparr>"

subsection \<open>Cart methods\<close>

definition getCartItems :: "store \<Rightarrow> int \<Rightarrow> CartItemWithProduct list" where
  "getCartItems st userId =
     (let items = filter (\<lambda>item. ci_userId item = userId) (jm_values (cartItems st))
      in map (\<lambda>item.
                let product = getProduct st (ci_productId item)
                in CartItem.extend item (CartItemWithProduct.fields product)) items)"

definition getCartItem :: "store \<Rightarrow> int \<Rightarrow> int \<Rightarrow> CartItem option" where
  "getCartItem st userId productId' =
     find (\<lambda>item. ci_userId item = userId \<and> ci_productId item = productId')
       (jm_values (cartItems st))"

definition addCartItem :: "store \<Rightarrow> InsertCartItem \<Rightarrow> store \<times> CartItem" where
  "addCartItem st insertCartItem =
     (case getCartItem st (ci_userId insertCartItem) (ci_productId insertCartItem) of
        Some existingItem \<Rightarrow>
          (let updatedItem =
                 existingItem\<lparr>ci_quantity :=
                   Some (js_add (ToNumber (ci_quantity existingItem))
                           (ToNumber (ci_quantity insertCartItem)))\<rparr>
           in (st\<lparr>cartItems := jm_set (cartItems st) (ci_id existingItem) updatedItem\<rparr>,
               updatedItem))
      | None \<Rightarrow>
          (let id' = cartItemId st;
               cartItem = InsertCartItem.extend insertCartItem (CartItem.fields id')
           in (st\<lparr>cartItemId := id' + 1, cartItems := jm_set (cartItems st) id' cartItem\<rparr>,
               cartItem)))"

definition updateCartItem :: "store \<Rightarrow> int \<Rightarrow> number \<Rightarrow> store \<times> CartItem option" where
  "updateCartItem st id' quantity =
     (case jm_get (cartItems st) id' of
        None \<Rightarrow> (st, None)
      | Some cartItem \<Rightarrow>
          (let updatedItem = cartItem\<lparr>ci_quantity := Some quantity\<rparr>
           in (st\<lparr>cartItems := jm_set (cartItems st) id' updatedItem\<rparr>, Some updatedItem)))"

definition removeCartItem :: "store \<Rightarrow> int \<Rightarrow> store" where
  "removeCartItem st id' = st\<lparr>cartItems := jm_delete (cartItems st) id'\<rparr>"

definition clearCart :: "store \<Rightarrow> int \<Rightarrow> store" where
  "clearCart st userId =
     (let userCartItems = filter (\<lambda>item. ci_userId item = userId) (jm_values (cartItems st))
      in fold (\<lambda>item s. s\<lparr>cartItems := jm_delete (cartItems s) (ci_id item)\<rparr>)
           userCartItems st)"

subsection \<open>Order methods\<close>

text \<open>The clock is outside the store: \<open>new Date()\<close> is the argument \<open>now\<close>.\<close>

definition add_order_item :: "int \<Rightarrow> InsertOrderItem \<Rightarrow> store \<Rightarrow> store" where
  "add_order_item id' item st =
     (let orderItemId' = orderItemId st;
          orderItem =
            InsertOrderItem.extend (item\<lparr>oi_orderId := id'\<rparr>) (OrderItem.fields orderItemId')
      in st\<lparr>orderItemId := orderItemId' + 1,
            orderItems := jm_set (orderItems st) orderItemId' orderItem\<rparr>)"

definition createOrder ::
  "store \<Rightarrow> InsertOrder \<Rightarrow> InsertOrderItem list \<Rightarrow> int \<Rightarrow> store \<times> Order" where
  "createOrder st orderData items now =
     (let id' = orderId st;
          order = InsertOrder.extend orderData (Order.fields id' now);
          st = st\<lparr>orderId := id' + 1, orders := jm_set (orders st) id' order\<rparr>;
          st = fold (add_order_item id') items st
      in (st, order))"

definition getOrders :: "store \<Rightarrow> int \<Rightarrow> Order list" where
  "getOrders st userId =
     js_sort_desc o_createdAt (filter (\<lambda>order. o_userId order = userId) (jm_values (orders st)))"

definition getOrder :: "store \<Rightarrow> int \<Rightarrow> OrderWithItems option" where
  "getOrder st id' =
     (case jm_get (orders st) id' of
        None \<Rightarrow> None
      | Some order \<Rightarrow>
          (let orderItems' = filter (\<lambda>item. oi_orderId item = id') (jm_values (orderItems st));
               itemsWithProducts =
                 map (\<lambda>item.
                        let product = getProduct st (oi_productId item)
                        in OrderItem.extend item (OrderItemWithProduct.fields product))
                   orderItems'
           in Some (Order.extend order (OrderWithItems.fields itemsWithProducts))))"

subsection \<open>Sequences of mutating calls\<close>

text \<open>The four mutating cart methods, and with \<open>createOrder\<close> every mutating method.\<close>

datatype cart_call =
    AddCartItem InsertCartItem
  | UpdateCartItem int number
  | RemoveCartItem int
  | ClearCart int

fun apply_cart_call :: "cart_call \<Rightarrow> store \<Rightarrow> store" where
  "apply_cart_call (AddCartItem ins) st = fst (addCartItem st ins)"
| "apply_cart_call (UpdateCartItem id' quantity) st = fst (updateCartItem st id' quantity)"
| "apply_cart_call (RemoveCartItem id') st = removeCartItem st id'"
| "apply_cart_call (ClearCart userId) st = clearCart st userId"

datatype storage_call =
    CartCall cart_call
  | CreateOrder InsertOrder "InsertOrderItem list" int

fun apply_call :: "storage_call \<Rightarrow> store \<Rightarrow> store" where
  "apply_call (CartCall c) st = apply_cart_call c st"
| "apply_call (CreateOrder orderData items now) st = fst (createOrder st orderData items now)"

definition run_calls :: "storage_call list \<Rightarrow> store \<Rightarrow> store" where
  "run_calls calls st = fold apply_call calls st"


section \<open>The order route (server/routes.ts)\<close>

text \<open>
  \<open>POST /api/orders\<close>. The request body is untyped JSON (\<open>'j\<close>); the two schema
  validations \<open>insertOrderSchema.parse\<close> and \<open>insertOrderItemSchema.parse\<close> are the
  parameters \<open>parse_order\<close> and \<open>parse_item\<close>, with \<open>None\<close> for a thrown \<open>ZodError\<close>.
  \<open>rq_items\<close> is \<open>None\<close> when the \<open>items\<close> of the body is not an array.
\<close>

record 'j order_request =
  rq_isAuthenticated :: bool
  rq_user_id :: int
  rq_orderData :: 'j
  rq_items :: "'j list option"

datatype reply = Message string | ZodErrors | Created Order

definition post_orders ::
  "('j \<Rightarrow> int \<Rightarrow> InsertOrder option) \<Rightarrow> ('j \<Rightarrow> InsertOrderItem option) \<Rightarrow> int \<Rightarrow>
   store \<Rightarrow> 'j order_request \<Rightarrow> store \<times> int \<times> reply" where
  "post_orders parse_order parse_item now st req =
     (if \<not> rq_isAuthenticated req then (st, 401, Message ''Not authenticated'')
      else
        (case rq_items req of
           None \<Rightarrow> (st, 400, Message ''Order must contain items'')
         | Some items \<Rightarrow>
             if length items = 0 then (st, 400, Message ''Order must contain items'')
             else
               (case parse_order (rq_orderData req) (rq_user_id req) of
                  None \<Rightarrow> (st, 400, ZodErrors)
                | Some validatedOrderData \<Rightarrow>
                    (case those (map parse_item items) of
                       None \<Rightarrow> (st, 400, ZodErrors)
                     | Some validatedItems \<Rightarrow>
                         (let (st, order) = createOrder st validatedOrderData validatedItems now;
                              st = clearCart st (rq_user_id req)
                          in (st, 201, Created order))))))"

section \<open>The checkout page (client/src/pages/checkout-page.tsx)\<close>

datatype CheckoutStep = Shipping | Payment | Review | Confirmation

datatype PaymentMethod = Credit | Paypal | Bank

record CheckoutFormValues =
  f_firstName :: string
  f_lastName :: string
  f_email :: string
  f_phone :: string
  f_address :: string
  f_city :: string
  f_state :: string
  f_zipCode :: string
  f_country :: string
  f_paymentMethod :: PaymentMethod
  f_cardNumber :: "string option"
  f_cardName :: "string option"
  f_expMonth :: "string option"
  f_expYear :: "string option"
  f_cvv :: "string option"

definition validatePaymentFields :: "CheckoutFormValues \<Rightarrow> bool" where
  "validatePaymentFields values =
     (if f_paymentMethod values = Credit then
        (if \<not> truthy_string (f_cardNumber values) then False
         else if \<not> truthy_string (f_cardName values) then False
         else if \<not> truthy_string (f_expMonth values) then False
         else if \<not> truthy_string (f_expYear values) then False
         else if \<not> truthy_string (f_cvv values) then False
         else True)
      else True)"

text \<open>
  \<open>onSubmit\<close> returns the next step and what else it does: nothing, the
  "Payment information required" toast, or the start of the order mutation.
\<close>

datatype submit_effect = NoEffect | ToastPaymentRequired | MutateCreateOrder

definition onSubmit :: "CheckoutStep \<Rightarrow> CheckoutFormValues \<Rightarrow> CheckoutStep \<times> submit_effect" where
  "onSubmit checkoutStep values =
     (if checkoutStep = Shipping then (Payment, NoEffect)
      else if checkoutStep = Payment then
        (if \<not> validatePaymentFields values then (checkoutStep, ToastPaymentRequired)
         else (Review, NoEffect))
      else if checkoutStep = Review then (checkoutStep, MutateCreateOrder)
      else (checkoutStep, NoEffect))"

definition handleBack :: "CheckoutStep \<Rightarrow> CheckoutStep" where
  "handleBack checkoutStep =
     (if checkoutStep = Payment then Shipping
      else if checkoutStep = Review then Payment
      else checkoutStep)"

text \<open>Pressing the submit button \<open>n\<close> times with the same form values.\<close>

fun submit_times :: "nat \<Rightarrow> CheckoutFormValues \<Rightarrow> CheckoutStep \<Rightarrow> CheckoutStep" where
  "submit_times 0 values checkoutStep = checkoutStep"
| "submit_times (Suc n) values checkoutStep =
     submit_times n values (fst (onSubmit checkoutStep values))"

subsection \<open>Order summary\<close>

text \<open>
  The cart of the page has the type of the answer of \<open>getCartItems\<close>. Reading
  \<open>item.product.price\<close> of an item whose \<open>product\<close> is undefined throws a \<open>TypeError\<close>: the
  result \<open>None\<close>. The \<open>reduce\<close> starts from 0 and adds, line by line,
  \<open>Number(item.product.price) * item.quantity\<close>.
\<close>

fun subtotal_reduce :: "number \<Rightarrow> CartItemWithProduct list \<Rightarrow> number option" where
  "subtotal_reduce total' [] = Some total'"
| "subtotal_reduce total' (item # items) =
     (case ci_product item of
        None \<Rightarrow> None
      | Some product \<Rightarrow>
          subtotal_reduce
            (js_add total' (js_mul (Number (p_price product)) (ToNumber (ci_quantity item))))
            items)"

record order_summary =
  os_subtotal :: number
  os_shippingCost :: number
  os_tax :: number
  os_total :: number

definition checkout_summary :: "CartItemWithProduct list \<Rightarrow> order_summary option" where
  "checkout_summary cartItems' =
     (case subtotal_reduce (Finite 0) cartItems' of
        None \<Rightarrow> None
      | Some subtotal \<Rightarrow>
          (let shippingCost =
                 (if js_less (Finite 0) subtotal then js_literal (999 / 100) else Finite 0);
               taxRate = js_literal (8 / 100);
               tax = js_mul subtotal taxRate;
               total' = js_add (js_add subtotal shippingCost) tax
           in Some \<lparr>os_subtotal = subtotal, os_shippingCost = shippingCost,
                     os_tax = tax, os_total = total'\<rparr>))"

text \<open>
  The body that \<open>createOrderMutation\<close> posts: one line per cart item with the product's
  price, and \<open>orderTotal = subtotal + shippingCost + tax\<close> (sent as its decimal string).
\<close>

record posted_item =
  pi_productId :: int
  pi_quantity :: "number option"
  pi_price :: decimal

record posted_order =
  pd_total :: number
  pd_status :: string
  pd_userId :: int
  pd_items :: "posted_item list"

definition posted_items :: "CartItemWithProduct list \<Rightarrow> posted_item list option" where
  "posted_items cartItems' =
     those (map (\<lambda>item.
                   case ci_product item of
                     None \<Rightarrow> None
                   | Some product \<Rightarrow>
                       Some \<lparr>pi_productId = ci_productId item, pi_quantity = ci_quantity item,
                             pi_price = p_price product\<rparr>) cartItems')"

definition createOrderMutation_body ::
  "int \<Rightarrow> CartItemWithProduct list \<Rightarrow> posted_order option" where
  "createOrderMutation_body userId cartItems' =
     (case checkout_summary cartItems' of
        None \<Rightarrow> None
      | Some s \<Rightarrow>
          (case posted_items cartItems' of
             None \<Rightarrow> None
           | Some orderItems' \<Rightarrow>
               (let orderTotal = js_add (js_add (os_subtotal s) (os_shippingCost s)) (os_tax s)
                in Some \<lparr>pd_total = orderTotal, pd_status = ''pending'', pd_userId = userId,
                          pd_items = orderItems'\<rparr>)))"

section \<open>Invariants of the store\<close>

text \<open>
  Every table is filled through \<open>id = counter++; table.set(id, row with that id)\<close> only, so
  in each table the keys ascend in insertion order, lie below the counter, and equal the
  \<open>id\<close> field of their row. Order items carry the id of an order already created, an id
  below the order counter.
\<close>

definition table_ok :: "('v \<Rightarrow> int) \<Rightarrow> int \<Rightarrow> 'v jsmap \<Rightarrow> bool" where
  "table_ok ident counter m =
     (sorted_wrt (<) (map fst m) \<and> (\<forall>e \<in> set m. fst e < counter \<and> ident (snd e) = fst e))"

definition orders_ok :: "store \<Rightarrow> bool" where
  "orders_ok st =
     (table_ok o_id (orderId st) (orders st) \<and>
      table_ok oi_id (orderItemId st) (orderItems st) \<and>
      (\<forall>e \<in> set (orderItems st). oi_orderId (snd e) < orderId st))"

definition store_ok :: "store \<Rightarrow> bool" where
  "store_ok st =
     (table_ok p_id (productId st) (products st) \<and>
      table_ok ci_id (cartItemId st) (cartItems st) \<and>
      orders_ok st)"

text \<open>At most one line item per (user, product) pair.\<close>

definition cart_lines :: "store \<Rightarrow> int \<Rightarrow> int \<Rightarrow> CartItem list" where
  "cart_lines st userId productId' =
     filter (\<lambda>item. ci_userId item = userId \<and> ci_productId item = productId')
       (jm_values (cartItems st))"

definition cart_unique :: "store \<Rightarrow> bool" where
  "cart_unique st = (\<forall>u p. length (cart_lines st u p) \<le> 1)"

text \<open>
  What can happen to the store after an order is created: any mutating call, and (a
  change the storage layer itself has no method for) a product table with other rows and
  prices.
\<close>

datatype later_step = Call storage_call | ProductsReplaced "Product jsmap"

fun apply_step :: "later_step \<Rightarrow> store \<Rightarrow> store" where
  "apply_step (Call c) st = apply_call c st"
| "apply_step (ProductsReplaced ps) st = st\<lparr>products := ps\<rparr>"

definition run_steps :: "later_step list \<Rightarrow> store \<Rightarrow> store" where
  "run_steps steps st = fold apply_step steps st"

text \<open>The stored lines of an order.\<close>

definition order_lines :: "store \<Rightarrow> int \<Rightarrow> OrderItem list" where
  "order_lines st id' = filter (\<lambda>item. oi_orderId item = id') (jm_values (orderItems st))"

section \<open>The product query, stage by stage\<close>

text \<open>
  The three blocks of \<open>getProducts\<close> ("Apply filters", "Apply sorting", "Apply
  pagination"), each as a function of the list it receives.
\<close>

definition filter_stage :: "product_options option \<Rightarrow> Product list \<Rightarrow> Product list" where
  "filter_stage options results =
     (let results =
            (if truthy_number (optional_chain options po_categoryId)
             then filter (\<lambda>p. Some (p_categoryId p) = optional_chain options po_categoryId) results
             else results);
          results =
            (if truthy_boolean (optional_chain options po_featured)
             then filter (\<lambda>p. truthy_boolean (p_isFeatured p)) results
             else results);
          results =
            (case optional_chain options po_search of
               None \<Rightarrow> results
             | Some s \<Rightarrow>
                 if s = [] then results
                 else (let search = toLowerCase s
                       in filter (\<lambda>p. str_includes (toLowerCase (p_name p)) search \<or>
                                       str_includes (toLowerCase (p_description p)) search) results))
      in results)"

definition sort_stage :: "product_options option \<Rightarrow> Product list \<Rightarrow> Product list" where
  "sort_stage options results =
     (case optional_chain options po_sort of
        None \<Rightarrow> results
      | Some sort' \<Rightarrow>
          if sort' = [] then results
          else if sort' = ''price-asc''
            then js_sort_asc (\<lambda>p. rank (Number (p_price p))) results
          else if sort' = ''price-desc''
            then js_sort_desc (\<lambda>p. rank (Number (p_price p))) results
          else if sort' = ''newest'' then js_sort_desc p_createdAt results
          else if sort' = ''rating''
            then js_sort_desc (\<lambda>p. rank (Number_nullable (p_rating p))) results
          else js_sort_asc p_id results)"

definition page_stage :: "product_options option \<Rightarrow> Product list \<Rightarrow> Product list" where
  "page_stage options results =
     (case optional_chain options po_offset of
        None \<Rightarrow> results
      | Some offset \<Rightarrow>
          (case optional_chain options po_limit of
             None \<Rightarrow> results
           | Some limit \<Rightarrow> js_slice results offset (offset + limit)))"

text \<open>
  The filter of the specification as one predicate: the category when one is given (and
  is not 0), the featured flag when featured products are asked for, and the search text,
  lower-cased, as a substring of the lower-cased name or description.
\<close>

definition category_matches :: "int option \<Rightarrow> Product \<Rightarrow> bool" where
  "category_matches c p = (case c of None \<Rightarrow> True | Some n \<Rightarrow> n = 0 \<or> p_categoryId p = n)"

definition featured_matches :: "bool option \<Rightarrow> Product \<Rightarrow> bool" where
  "featured_matches f p = (if f = Some True then p_isFeatured p = Some True else True)"

definition search_matches :: "string option \<Rightarrow> Product \<Rightarrow> bool" where
  "search_matches s p =
     (case s of
        None \<Rightarrow> True
      | Some t \<Rightarrow> str_includes (toLowerCase (p_name p)) (toLowerCase t) \<or>
                  str_includes (toLowerCase (p_description p)) (toLowerCase t))"

definition product_matches :: "product_options \<Rightarrow> Product \<Rightarrow> bool" where
  "product_matches opts p =
     (category_matches (po_categoryId opts) p \<and> featured_matches (po_featured opts) p \<and>
      search_matches (po_search opts) p)"

definition count_matches :: "count_options \<Rightarrow> Product \<Rightarrow> bool" where
  "count_matches copts p =
     (category_matches (co_categoryId copts) p \<and> search_matches (co_search copts) p)"

text \<open>The sort key is one of the four named ones.\<close>

definition named_sort :: "string option \<Rightarrow> bool" where
  "named_sort s =
     (s = Some ''price-asc'' \<or> s = Some ''price-desc'' \<or> s = Some ''newest'' \<or>
      s = Some ''rating'')"

text \<open>Queries with no field set.\<close>

definition no_options :: product_options where
  "no_options =
     \<lparr>po_categoryId = None, po_featured = None, po_limit = None, po_offset = None,
      po_search = None, po_sort = None\<rparr>"

definition no_count_options :: count_options where
  "no_count_options = \<lparr>co_categoryId = None, co_search = None\<rparr>"

section \<open>Sample inputs\<close>

text \<open>
  A store reached from the constructor: user 1 puts a product that does not exist into
  the cart, user 2 puts two cotton T-shirts (product 19) into theirs, and an order for
  user 1 with one line for the missing product is created.
\<close>

definition demo_calls :: "storage_call list" where
  "demo_calls =
     [CartCall (AddCartItem
        \<lparr>ci_userId = 1, ci_productId = 999, ci_quantity = Some (Finite 1)\<rparr>),
      CartCall (AddCartItem
        \<lparr>ci_userId = 2, ci_productId = 19, ci_quantity = Some (Finite 2)\<rparr>),
      CreateOrder \<lparr>o_userId = 1, o_total = 5, o_status = ''pending''\<rparr>
        [\<lparr>oi_orderId = 0, oi_productId = 999, oi_quantity = 1, oi_price = 5\<rparr>]
        1700000000000]"

definition demo_store :: store where
  "demo_store = run_calls demo_calls new_MemStorage"

text \<open>
  The form as \<open>defaultValues\<close> sets it up when no user data is loaded: payment by
  credit card, all card fields empty.
\<close>

definition defaultValues :: CheckoutFormValues where
  "defaultValues =
     \<lparr>f_firstName = '''', f_lastName = '''', f_email = '''', f_phone = '''', f_address = '''',
      f_city = '''', f_state = '''', f_zipCode = '''', f_country = ''United States'',
      f_paymentMethod = Credit, f_cardNumber = Some '''', f_cardName = Some '''',
      f_expMonth = Some '''', f_expYear = Some '''', f_cvv = Some ''''\<rparr>"

text \<open>
  An order for two cotton T-shirts at 19.99, and what may follow it: the product table is
  emptied, another order is created, the buyer's cart is cleared.
\<close>

definition demo_order_items :: "InsertOrderItem list" where
  "demo_order_items =
     [\<lparr>oi_orderId = 0, oi_productId = 19, oi_quantity = 2, oi_price = 1999 / 100\<rparr>]"

definition demo_later_steps :: "later_step list" where
  "demo_later_steps =
     [ProductsReplaced [],
      Call (CreateOrder \<lparr>o_userId = 1, o_total = 1, o_status = ''pending''\<rparr>
              [\<lparr>oi_orderId = 0, oi_productId = 19, oi_quantity = 1, oi_price = 1\<rparr>]
              1700000000001),
      Call (CartCall (ClearCart 2))]"

text \<open>
  The query that the home page's \<open>GET /api/products?featured=true&limit=4\<close> hands to
  \<open>getProducts\<close>: featured products only, page 1 of pages of 4.
\<close>

definition featured_query :: product_options where
  "featured_query =
     no_options\<lparr>po_featured := Some True, po_offset := Some 0, po_limit := Some 4\<rparr>"

text \<open>
  A second cart, of two lines: two cotton T-shirts at 19.99 (product 19) and one pair of
  wireless headphones at 129.99 (product 1), as \<open>getCartItems\<close> returns it for user 3.
\<close>

definition two_line_cart :: "CartItemWithProduct list" where
  "two_line_cart =
     getCartItems
       (run_calls
          [CartCall (AddCartItem
             \<lparr>ci_userId = 3, ci_productId = 19, ci_quantity = Some (Finite 2)\<rparr>),
           CartCall (AddCartItem
             \<lparr>ci_userId = 3, ci_productId = 1, ci_quantity = Some (Finite 1)\<rparr>)]
          new_MemStorage) 3"

section \<open>The order total in the words of the specification\<close>

text \<open>
  The amount of a cart line is the product's price times the quantity; the subtotal is the
  sum of the amounts of the lines, taken from left to right. Both are taken in JavaScript
  arithmetic. The amounts exist when every line has its product.
\<close>

definition line_amount :: "Product \<Rightarrow> number option \<Rightarrow> number" where
  "line_amount product quantity = js_mul (Number (p_price product)) (ToNumber quantity)"

definition cart_amounts :: "CartItemWithProduct list \<Rightarrow> number list option" where
  "cart_amounts cart =
     those (map (\<lambda>item. map_option (\<lambda>product. line_amount product (ci_quantity item))
                           (ci_product item)) cart)"

definition js_sum :: "number list \<Rightarrow> number" where
  "js_sum xs = foldl js_add (Finite 0) xs"

section \<open>Properties\<close>

subsection \<open>The number model on known values\<close>

text \<open>
  The doubles of \<open>0.1\<close> and \<open>1/3\<close>, the sum \<open>0.1 + 0.2\<close> (which is not the double of
  \<open>0.3\<close>), ties to even at \<open>2^53\<close>, and \<open>2^53 + 1\<close>, which is \<open>2^53\<close> again.
\<close>

lemma fl_tenth: "fl (1 / 10) = 3602879701896397 / 36028797018963968"
  by code_simp

lemma fl_third: "fl (1 / 3) = 6004799503160661 / 18014398509481984"
  by code_simp

lemma fl_one: "fl 1 = 1"
  by code_simp

lemma fl_minus_tenth: "fl (- (1 / 10)) = - (3602879701896397 / 36028797018963968)"
  by code_simp

lemma tenth_plus_fifth:
  "js_add (js_literal (1 / 10)) (js_literal (2 / 10)) =
     Finite (1351079888211149 / 4503599627370496)"
  by code_simp

lemma three_tenths: "js_literal (3 / 10) = Finite (5404319552844595 / 18014398509481984)"
  by code_simp

lemma fl_tie_down: "fl (2 ^ 53 + 1) = 2 ^ 53"
  by code_simp

lemma fl_tie_up: "fl (2 ^ 53 + 3) = 2 ^ 53 + 4"
  by code_simp

lemma two_to_53_plus_one: "js_add (Finite (2 ^ 53)) (Finite 1) = Finite (2 ^ 53)"
  by code_simp

lemma infinities_and_NaN:
  "js_add PosInfinity (Finite 1) = PosInfinity"
  "js_add PosInfinity NegInfinity = NaN"
  "js_mul PosInfinity (Finite 0) = NaN"
  "js_mul NegInfinity (Finite (- 2)) = PosInfinity"
  "js_mul (Finite 3) (ToNumber None) = NaN"
  "\<not> js_less (Finite 0) NaN"
  "js_less (Finite 0) PosInfinity"
  by (simp_all add: ToNumber_def js_less_def rank_def)

subsection \<open>Integers up to \<open>2^53\<close> are computed with exactly\<close>

lemma round_half_even_int: "round_half_even (of_int k) = k"
  by (simp add: round_half_even_def)

lemma int_binade:
  assumes "0 < n" and "n < 2 ^ 53"
  obtains k where "k \<le> 52" and "binade (of_int n) = - int k"
proof -
  let ?b = "bitlen n"
  have b1: "1 \<le> ?b"
    using assms(1) bitlen_eq_zero_iff [of n] bitlen_nonneg [of n] by linarith
  have b53: "?b \<le> 53"
    using assms(2) by (simp add: bitlen_le_iff_power)
  define k where "k = nat (53 - ?b)"
  have kb: "?b = 53 - int k" and k52: "k \<le> 52"
    using b1 b53 by (simp_all add: k_def)
  have "nat (?b - 1) = 52 - k"
    using kb k52 by simp
  then have "(2::int) ^ (52 - k) \<le> n"
    using bitlen_bounds [OF assms(1)] by simp
  then have step: "(2::int) ^ (52 - k) * 2 ^ (k + 1) \<le> n * 2 ^ (k + 1)"
    by simp
  have eq: "(2::int) ^ (52 - k) * 2 ^ (k + 1) = 2 ^ 53"
    using k52 by (simp add: power_add [symmetric])
  have big: "(2::int) ^ 53 \<le> n * 2 ^ (k + 1)"
    using step unfolding eq .
  have one: "bitlen 1 = 1"
    by (subst compute_bitlen) simp
  have e0: "?b - bitlen 1 - 53 = - int (k + 1)"
    using kb by (simp add: one)
  have p: "(2::rat) powi (- int (k + 1)) = 1 / 2 ^ (k + 1)"
    by (simp add: power_int_minus_divide del: of_nat_Suc of_nat_add)
  have "rat_of_int n / (2 powi (- int (k + 1))) = of_int (n * 2 ^ (k + 1))"
    unfolding p by simp
  moreover have "(2::rat) ^ 53 \<le> of_int (n * 2 ^ (k + 1))"
    using big by (metis of_int_le_iff of_int_numeral of_int_power)
  ultimately have "(2::rat) ^ 53 \<le> rat_of_int n / (2 powi (- int (k + 1)))"
    by simp
  then have "binade (of_int n) = max (- int (k + 1) + 1) (- 1074)"
    by (simp only: binade_def quotient_of_rat_of_int prod.case Let_def e0 if_True)
  then have "binade (of_int n) = - int k"
    using k52 by simp
  with k52 show thesis
    by (rule that)
qed

lemma fl_small_int:
  assumes "0 < n" and "n < 2 ^ 53"
  shows "fl (of_int n) = of_int n" and "\<not> overflows (of_int n)"
proof -
  from int_binade [OF assms] obtain k where k: "k \<le> 52"
    and e: "binade (of_int n) = - int k"
    by blast
  have p: "(2::rat) powi (- int k) = 1 / 2 ^ k"
    by (simp add: power_int_minus_divide)
  have a: "\<bar>rat_of_int n\<bar> = of_int n"
    using assms(1) by simp
  have m: "round_half_even (rat_of_int n / (2 powi (- int k))) = n * 2 ^ k"
  proof -
    have "rat_of_int n / (2 powi (- int k)) = of_int (n * 2 ^ k)"
      unfolding p by simp
    then show ?thesis
      by (simp only: round_half_even_int)
  qed
  have "fl (of_int n) = sgn (rat_of_int n) * of_int (n * 2 ^ k) * (2 powi (- int k))"
    using assms(1) by (simp only: fl_def a e m Let_def) simp
  also have "\<dots> = of_int n"
    using assms(1) unfolding p by simp
  finally show "fl (of_int n) = of_int n" .
  show "\<not> overflows (of_int n)"
    by (simp only: overflows_def a e m Let_def) simp
qed

lemma round_number_minus:
  "round_number (- q) =
     (case round_number q of Finite x \<Rightarrow> Finite (- x) | PosInfinity \<Rightarrow> NegInfinity
      | NegInfinity \<Rightarrow> PosInfinity | NaN \<Rightarrow> NaN)"
  by (cases "q = 0") (auto simp: round_number_def overflows_def fl_def Let_def)

lemma round_number_two_to_53: "round_number (2 ^ 53) = Finite (2 ^ 53)"
  by code_simp

lemma round_number_nonneg_int:
  assumes "0 \<le> n" and "n \<le> 2 ^ 53"
  shows "round_number (of_int n) = Finite (of_int n)"
proof -
  consider "n = 0" | "0 < n" "n < 2 ^ 53" | "n = 2 ^ 53"
    using assms by linarith
  then show ?thesis
  proof cases
    case 1
    then show ?thesis
      by (simp add: round_number_def overflows_def fl_def)
  next
    case 2
    then show ?thesis
      by (simp add: round_number_def fl_small_int)
  next
    case 3
    then show ?thesis
      using round_number_two_to_53 by simp
  qed
qed

lemma round_number_safe_int:
  assumes "\<bar>n\<bar> \<le> 2 ^ 53"
  shows "round_number (of_int n) = Finite (of_int n)"
proof (cases "0 \<le> n")
  case True
  then show ?thesis
    using assms by (simp add: round_number_nonneg_int)
next
  case False
  then have "round_number (of_int (- n)) = Finite (of_int (- n))"
    using assms by (intro round_number_nonneg_int) simp_all
  then have "round_number (- (- rat_of_int n)) = Finite (of_int n)"
    by (subst round_number_minus) simp
  then show ?thesis by simp
qed

lemma js_add_safe_ints:
  "\<bar>a + b\<bar> \<le> 2 ^ 53 \<Longrightarrow> js_add (Finite (of_int a)) (Finite (of_int b)) = Finite (of_int (a + b))"
  using round_number_safe_int [of "a + b"] by simp

text \<open>At the top of the range a sum or a product is an infinity: \<open>2^1023 + 2^1023\<close>.\<close>

lemma binade_big: "binade (2 ^ 1024) = 972"
proof -
  have q: "quotient_of ((2::rat) ^ 1024) = (2 ^ 1024, 1)"
    using quotient_of_int [of "2 ^ 1024"] by simp
  have b: "bitlen ((2::int) ^ 1024) = 1025"
    using bitlen_twopow_add_eq [of 0 1024] by simp
  have b1: "bitlen 1 = 1" by (subst compute_bitlen) simp
  have d: "(2::rat) ^ 1024 / power_int 2 971 = 2 ^ 53"
    by (simp add: power_int_def)
  show ?thesis
    unfolding binade_def q
    by (simp only: prod.case Let_def b b1 d) simp
qed

lemma overflow_example:
  "js_add (Finite (2 ^ 1023)) (Finite (2 ^ 1023)) = PosInfinity"
  "js_mul (Finite 2) (Finite (2 ^ 1023)) = PosInfinity"
proof -
  have e: "(2::rat) ^ 1023 + 2 ^ 1023 = 2 ^ 1024" "(2::rat) * 2 ^ 1023 = 2 ^ 1024" by simp_all
  have o: "overflows (2 ^ 1024)"
  proof -
    have a: "\<bar>(2::rat) ^ 1024\<bar> = 2 ^ 1024" by simp
    show ?thesis
      unfolding overflows_def by (simp only: a binade_big Let_def) simp
  qed
  have p: "(0::rat) < 2 ^ 1024" by simp
  show "js_add (Finite (2 ^ 1023)) (Finite (2 ^ 1023)) = PosInfinity"
    by (simp only: js_add.simps e round_number_def o p if_True)
  show "js_mul (Finite 2) (Finite (2 ^ 1023)) = PosInfinity"
    by (simp only: js_mul.simps e round_number_def o p if_True)
qed

subsection \<open>Maps and well-formed tables\<close>

lemma jm_set_fresh: "\<forall>e \<in> set m. fst e < k \<Longrightarrow> jm_set m k v = m @ [(k, v)]"
  by (induction m) auto

lemma table_ok_distinct: "table_ok ident c m \<Longrightarrow> distinct (map fst m)"
  by (simp add: table_ok_def strict_sorted_iff)

lemma jm_set_present:
  "distinct (map fst m) \<Longrightarrow> k \<in> fst ` set m \<Longrightarrow>
   jm_set m k v = map (\<lambda>e. if fst e = k then (k, v) else e) m"
proof (induction m)
  case Nil
  then show ?case by simp
next
  case (Cons e m)
  show ?case
  proof (cases "fst e = k")
    case True
    with Cons.prems have "k \<notin> fst ` set m" by auto
    then have "map (\<lambda>e. if fst e = k then (k, v) else e) m = m"
      by (induction m) auto
    with True show ?thesis by simp
  next
    case False
    with Cons show ?thesis by auto
  qed
qed

lemma table_ok_append:
  "table_ok ident c m \<Longrightarrow> ident v = c \<Longrightarrow> table_ok ident (c + 1) (m @ [(c, v)])"
  unfolding table_ok_def by (simp add: sorted_wrt_append) force

lemma table_ok_set_fresh:
  "table_ok ident c m \<Longrightarrow> ident v = c \<Longrightarrow> table_ok ident (c + 1) (jm_set m c v)"
proof -
  assume ok: "table_ok ident c m" and v: "ident v = c"
  then have "\<forall>e \<in> set m. fst e < c" by (simp add: table_ok_def)
  then have "jm_set m c v = m @ [(c, v)]" by (rule jm_set_fresh)
  with ok v show ?thesis by (simp add: table_ok_append)
qed

lemma table_ok_filter: "table_ok ident c m \<Longrightarrow> table_ok ident c (filter P m)"
  by (auto simp: table_ok_def sorted_wrt_filter sorted_wrt_map)

lemma jm_get_Some: "jm_get m k = Some v \<Longrightarrow> (k, v) \<in> set m"
  by (simp add: jm_get_def map_of_SomeD)

subsection \<open>The product query as filter, sort, slice\<close>

lemma getProducts_stages:
  "getProducts st options =
     page_stage options (sort_stage options (filter_stage options (jm_values (products st))))"
  by (simp only: getProducts_def page_stage_def sort_stage_def filter_stage_def Let_def)

lemma str_includes_empty: "str_includes s []"
  by (cases s) simp_all

lemma category_filter_matches:
  "(if truthy_number c then filter (\<lambda>p. Some (p_categoryId p) = c) xs else xs) =
   filter (category_matches c) xs"
  by (cases c) (auto simp: truthy_number_def category_matches_def intro: filter_cong)

lemma featured_filter_matches:
  "(if truthy_boolean f then filter (\<lambda>p. truthy_boolean (p_isFeatured p)) xs else xs) =
   filter (featured_matches f) xs"
  by (cases f)
    (auto simp: truthy_boolean_def featured_matches_def split: option.splits intro!: filter_cong)

lemma search_filter_matches:
  "(case s of
      None \<Rightarrow> xs
    | Some t \<Rightarrow>
        if t = [] then xs
        else filter (\<lambda>p. str_includes (toLowerCase (p_name p)) (toLowerCase t) \<or>
                        str_includes (toLowerCase (p_description p)) (toLowerCase t)) xs) =
   filter (search_matches s) xs"
proof (cases s)
  case None
  then show ?thesis by (simp add: search_matches_def)
next
  case (Some t)
  show ?thesis
  proof (cases "t = []")
    case True
    with Some show ?thesis
      by (simp add: search_matches_def toLowerCase_def str_includes_empty)
  next
    case False
    with Some show ?thesis
      by (auto simp: search_matches_def intro!: filter_cong)
  qed
qed

lemma filter_stage_matches:
  "filter_stage (Some opts) xs = filter (product_matches opts) xs"
proof -
  have "filter_stage (Some opts) xs =
        filter (search_matches (po_search opts))
          (filter (featured_matches (po_featured opts))
            (filter (category_matches (po_categoryId opts)) xs))"
    by (simp only: filter_stage_def Let_def optional_chain_def option.case
        category_filter_matches featured_filter_matches search_filter_matches)
  also have "\<dots> = filter (product_matches opts) xs"
    by (auto simp: product_matches_def intro: filter_cong)
  finally show ?thesis .
qed

lemma filter_stage_None: "filter_stage None xs = xs"
  by (simp add: filter_stage_def optional_chain_def truthy_number_def truthy_boolean_def)

lemma getProductCount_matches:
  "getProductCount st (Some copts) =
     int (length (filter (count_matches copts) (jm_values (products st))))"
proof -
  let ?xs = "jm_values (products st)"
  have both:
    "filter (search_matches (co_search copts))
       (filter (category_matches (co_categoryId copts)) ?xs) = filter (count_matches copts) ?xs"
    by (auto simp: count_matches_def intro: filter_cong)
  show ?thesis
  proof (cases "truthy_number (co_categoryId copts) \<or> truthy_string (co_search copts)")
    case True
    then have "getProductCount st (Some copts) =
        int (length (filter (search_matches (co_search copts))
               (filter (category_matches (co_categoryId copts)) ?xs)))"
      by (simp only: getProductCount_def Let_def optional_chain_def option.case
          category_filter_matches search_filter_matches if_True)
    with both show ?thesis by simp
  next
    case False
    then have all: "\<And>p. count_matches copts p"
      by (auto simp: count_matches_def category_matches_def search_matches_def
          truthy_number_def truthy_string_def str_includes_empty toLowerCase_def
          split: option.splits)
    from False have "getProductCount st (Some copts) = jm_size (products st)"
      by (simp only: getProductCount_def Let_def optional_chain_def option.case if_False)
    then show ?thesis
      by (simp add: all jm_size_def jm_values_def)
  qed
qed

lemma getProductCount_None: "getProductCount st None = jm_size (products st)"
  by (simp add: getProductCount_def optional_chain_def truthy_number_def truthy_string_def)

lemma stage_fields:
  "sort_stage (Some (opts\<lparr>po_categoryId := c\<rparr>)) = sort_stage (Some opts)"
  "sort_stage (Some (opts\<lparr>po_search := s\<rparr>)) = sort_stage (Some opts)"
  "sort_stage (Some (opts\<lparr>po_featured := f\<rparr>)) = sort_stage (Some opts)"
  "page_stage (Some (opts\<lparr>po_categoryId := c\<rparr>)) = page_stage (Some opts)"
  "page_stage (Some (opts\<lparr>po_search := s\<rparr>)) = page_stage (Some opts)"
  "page_stage (Some (opts\<lparr>po_featured := f\<rparr>)) = page_stage (Some opts)"
  by (simp_all add: sort_stage_def page_stage_def optional_chain_def fun_eq_iff
      split: option.splits)

lemma falsy_matches:
  "category_matches (Some 0) = category_matches None"
  "search_matches (Some []) = search_matches None"
  "featured_matches (Some False) = featured_matches None"
  by (simp_all add: category_matches_def search_matches_def featured_matches_def fun_eq_iff
      toLowerCase_def str_includes_empty)

lemma falsy_product_matches:
  "product_matches (opts\<lparr>po_categoryId := Some 0\<rparr>) =
     product_matches (opts\<lparr>po_categoryId := None\<rparr>)"
  "product_matches (opts\<lparr>po_search := Some []\<rparr>) =
     product_matches (opts\<lparr>po_search := None\<rparr>)"
  "product_matches (opts\<lparr>po_featured := Some False\<rparr>) =
     product_matches (opts\<lparr>po_featured := None\<rparr>)"
  "count_matches (copts\<lparr>co_categoryId := Some 0\<rparr>) =
     count_matches (copts\<lparr>co_categoryId := None\<rparr>)"
  "count_matches (copts\<lparr>co_search := Some []\<rparr>) =
     count_matches (copts\<lparr>co_search := None\<rparr>)"
  by (simp_all add: fun_eq_iff product_matches_def count_matches_def falsy_matches)

text \<open>
  Claim C9. Presence of a filter field is decided by truthiness: a category id of 0, an
  empty search text and a featured flag of false give, in \<open>getProducts\<close> and in
  \<open>getProductCount\<close>, the result of the same query without that field.
\<close>

theorem falsy_filter_fields_are_absent:
  "getProducts st (Some (opts\<lparr>po_categoryId := Some 0\<rparr>)) =
     getProducts st (Some (opts\<lparr>po_categoryId := None\<rparr>)) \<and>
   getProducts st (Some (opts\<lparr>po_search := Some []\<rparr>)) =
     getProducts st (Some (opts\<lparr>po_search := None\<rparr>)) \<and>
   getProducts st (Some (opts\<lparr>po_featured := Some False\<rparr>)) =
     getProducts st (Some (opts\<lparr>po_featured := None\<rparr>)) \<and>
   getProductCount st (Some (copts\<lparr>co_categoryId := Some 0\<rparr>)) =
     getProductCount st (Some (copts\<lparr>co_categoryId := None\<rparr>)) \<and>
   getProductCount st (Some (copts\<lparr>co_search := Some []\<rparr>)) =
     getProductCount st (Some (copts\<lparr>co_search := None\<rparr>))"
  by (simp add: getProducts_stages stage_fields filter_stage_matches getProductCount_matches
      falsy_product_matches)

theorem falsy_filter_fields_are_absent_witness:
  "getProducts new_MemStorage (Some (no_options\<lparr>po_categoryId := Some 0\<rparr>)) =
     getProducts new_MemStorage (Some (no_options\<lparr>po_categoryId := None\<rparr>)) \<and>
   getProducts new_MemStorage (Some (no_options\<lparr>po_search := Some []\<rparr>)) =
     getProducts new_MemStorage (Some (no_options\<lparr>po_search := None\<rparr>)) \<and>
   getProducts new_MemStorage (Some (no_options\<lparr>po_featured := Some False\<rparr>)) =
     getProducts new_MemStorage (Some (no_options\<lparr>po_featured := None\<rparr>)) \<and>
   getProductCount new_MemStorage (Some (no_count_options\<lparr>co_categoryId := Some 0\<rparr>)) =
     getProductCount new_MemStorage (Some (no_count_options\<lparr>co_categoryId := None\<rparr>)) \<and>
   getProductCount new_MemStorage (Some (no_count_options\<lparr>co_search := Some []\<rparr>)) =
     getProductCount new_MemStorage (Some (no_count_options\<lparr>co_search := None\<rparr>))"
  by (rule falsy_filter_fields_are_absent)

subsection \<open>The payment step\<close>

lemma submit_times_stuck: "fst (onSubmit s v) = s \<Longrightarrow> submit_times n v s = s"
  by (induction n) auto

text \<open>
  Claim C5. At the payment step, a credit-card form with one of the five card fields
  empty stays at the payment step however often it is submitted; with PayPal or bank
  transfer one submit leads to the review step, whatever the card fields hold.
\<close>

theorem payment_step_gate:
  "(f_paymentMethod v = Credit \<and>
      (\<not> truthy_string (f_cardNumber v) \<or> \<not> truthy_string (f_cardName v) \<or>
       \<not> truthy_string (f_expMonth v) \<or> \<not> truthy_string (f_expYear v) \<or>
       \<not> truthy_string (f_cvv v))
    \<longrightarrow> onSubmit Payment v = (Payment, ToastPaymentRequired) \<and>
        (\<forall>n. submit_times n v Payment \<noteq> Review)) \<and>
   (f_paymentMethod v = Paypal \<or> f_paymentMethod v = Bank
    \<longrightarrow> onSubmit Payment v = (Review, NoEffect))"
proof (intro conjI impI)
  assume a: "f_paymentMethod v = Credit \<and>
      (\<not> truthy_string (f_cardNumber v) \<or> \<not> truthy_string (f_cardName v) \<or>
       \<not> truthy_string (f_expMonth v) \<or> \<not> truthy_string (f_expYear v) \<or>
       \<not> truthy_string (f_cvv v))"
  then have nv: "\<not> validatePaymentFields v"
    by (auto simp: validatePaymentFields_def)
  then show stay: "onSubmit Payment v = (Payment, ToastPaymentRequired)"
    by (simp add: onSubmit_def)
  then have "\<And>n. submit_times n v Payment = Payment"
    by (simp add: submit_times_stuck)
  then show "\<forall>n. submit_times n v Payment \<noteq> Review"
    by simp
next
  assume "f_paymentMethod v = Paypal \<or> f_paymentMethod v = Bank"
  then have "validatePaymentFields v"
    by (auto simp: validatePaymentFields_def)
  then show "onSubmit Payment v = (Review, NoEffect)"
    by (simp add: onSubmit_def)
qed

theorem payment_step_gate_witness:
  "f_paymentMethod defaultValues = Credit \<and> \<not> truthy_string (f_cardNumber defaultValues) \<and>
   onSubmit Payment defaultValues = (Payment, ToastPaymentRequired) \<and>
   submit_times 3 defaultValues Payment \<noteq> Review \<and>
   f_paymentMethod (defaultValues\<lparr>f_paymentMethod := Paypal\<rparr>) = Paypal \<and>
   onSubmit Payment (defaultValues\<lparr>f_paymentMethod := Paypal\<rparr>) = (Review, NoEffect)"
proof -
  have c: "f_paymentMethod defaultValues = Credit"
    and n: "\<not> truthy_string (f_cardNumber defaultValues)"
    by (simp_all add: defaultValues_def truthy_string_def)
  have p: "f_paymentMethod (defaultValues\<lparr>f_paymentMethod := Paypal\<rparr>) = Paypal"
    by simp
  from c n p show ?thesis
    using payment_step_gate [of defaultValues]
      payment_step_gate [of "defaultValues\<lparr>f_paymentMethod := Paypal\<rparr>"]
    by blast
qed

subsection \<open>Tables: values after \<open>set\<close> and \<open>delete\<close>\<close>

lemma table_ok_keys_below: "table_ok ident c m \<Longrightarrow> \<forall>e \<in> set m. fst e < c"
  by (simp add: table_ok_def)

lemma table_ok_ident: "table_ok ident c m \<Longrightarrow> e \<in> set m \<Longrightarrow> ident (snd e) = fst e"
  by (simp add: table_ok_def)

lemma table_ok_set_present:
  assumes ok: "table_ok ident c m" and k: "k \<in> fst ` set m" and v: "ident v = k"
  shows "table_ok ident c (jm_set m k v)"
proof -
  let ?m' = "map (\<lambda>e. if fst e = k then (k, v) else e) m"
  have eq: "jm_set m k v = ?m'"
    using ok k by (simp add: jm_set_present table_ok_distinct)
  have keys: "map fst ?m' = map fst m"
    by (induction m) auto
  have "sorted_wrt (<) (map fst ?m')"
    using ok by (simp only: keys table_ok_def)
  moreover have "\<forall>e \<in> set ?m'. fst e < c \<and> ident (snd e) = fst e"
    using ok v by (auto simp: table_ok_def)
  ultimately show ?thesis
    unfolding eq table_ok_def by blast
qed

lemma values_set_present:
  assumes ok: "table_ok ident c m" and k: "k \<in> fst ` set m"
  shows "jm_values (jm_set m k v) = map (\<lambda>x. if ident x = k then v else x) (jm_values m)"
proof -
  have "jm_set m k v = map (\<lambda>e. if fst e = k then (k, v) else e) m"
    using ok k by (simp add: jm_set_present table_ok_distinct)
  moreover have "map snd (map (\<lambda>e. if fst e = k then (k, v) else e) m) =
                 map (\<lambda>x. if ident x = k then v else x) (map snd m)"
    using table_ok_ident [OF ok] by (induction m) (auto simp: table_ok_def)
  ultimately show ?thesis by (simp add: jm_values_def)
qed

lemma values_set_fresh:
  "table_ok ident c m \<Longrightarrow> jm_values (jm_set m c v) = jm_values m @ [v]"
  by (simp add: jm_set_fresh table_ok_keys_below jm_values_def)

lemma table_ok_delete: "table_ok ident c m \<Longrightarrow> table_ok ident c (jm_delete m k)"
  by (simp add: jm_delete_def table_ok_filter)

lemma jm_get_values: "jm_get m k = Some v \<Longrightarrow> v \<in> set (jm_values m)"
  by (force simp: jm_values_def dest: jm_get_Some)

lemma value_key:
  "table_ok ident c m \<Longrightarrow> x \<in> set (jm_values m) \<Longrightarrow> ident x \<in> fst ` set m"
  by (force simp: jm_values_def table_ok_def)

subsection \<open>What each method leaves alone\<close>

lemma addCartItem_frame:
  "products (fst (addCartItem st ins)) = products st"
  "orders (fst (addCartItem st ins)) = orders st"
  "orderItems (fst (addCartItem st ins)) = orderItems st"
  "productId (fst (addCartItem st ins)) = productId st"
  "orderId (fst (addCartItem st ins)) = orderId st"
  "orderItemId (fst (addCartItem st ins)) = orderItemId st"
  by (simp_all add: addCartItem_def Let_def split: option.splits)

lemma updateCartItem_frame:
  "products (fst (updateCartItem st k q)) = products st"
  "orders (fst (updateCartItem st k q)) = orders st"
  "orderItems (fst (updateCartItem st k q)) = orderItems st"
  "productId (fst (updateCartItem st k q)) = productId st"
  "cartItemId (fst (updateCartItem st k q)) = cartItemId st"
  "orderId (fst (updateCartItem st k q)) = orderId st"
  "orderItemId (fst (updateCartItem st k q)) = orderItemId st"
  by (simp_all add: updateCartItem_def Let_def split: option.splits)

lemma removeCartItem_frame:
  "products (removeCartItem st k) = products st"
  "orders (removeCartItem st k) = orders st"
  "orderItems (removeCartItem st k) = orderItems st"
  "productId (removeCartItem st k) = productId st"
  "cartItemId (removeCartItem st k) = cartItemId st"
  "orderId (removeCartItem st k) = orderId st"
  "orderItemId (removeCartItem st k) = orderItemId st"
  by (simp_all add: removeCartItem_def)

lemma clear_fold:
  "fold (\<lambda>item s. s\<lparr>cartItems := jm_delete (cartItems s) (ci_id item)\<rparr>) its st =
   st\<lparr>cartItems := filter (\<lambda>e. fst e \<notin> ci_id ` set its) (cartItems st)\<rparr>"
proof (induction its arbitrary: st)
  case Nil
  then show ?case by simp
next
  case (Cons a its)
  have "filter (\<lambda>e. fst e \<notin> ci_id ` set its) (jm_delete (cartItems st) (ci_id a)) =
        filter (\<lambda>e. fst e \<notin> ci_id ` set (a # its)) (cartItems st)"
    by (auto simp: jm_delete_def intro: filter_cong)
  then show ?case
    by (simp add: Cons.IH)
qed

lemma clearCart_eq:
  assumes ok: "table_ok ci_id (cartItemId st) (cartItems st)"
  shows "clearCart st u =
         st\<lparr>cartItems := filter (\<lambda>e. ci_userId (snd e) \<noteq> u) (cartItems st)\<rparr>"
proof -
  let ?its = "filter (\<lambda>item. ci_userId item = u) (jm_values (cartItems st))"
  have "\<forall>e \<in> set (cartItems st). (fst e \<notin> ci_id ` set ?its) = (ci_userId (snd e) \<noteq> u)"
  proof
    fix e
    assume e: "e \<in> set (cartItems st)"
    have d: "distinct (map fst (cartItems st))"
      using ok by (rule table_ok_distinct)
    show "(fst e \<notin> ci_id ` set ?its) = (ci_userId (snd e) \<noteq> u)"
    proof
      assume "fst e \<notin> ci_id ` set ?its"
      moreover have "ci_id (snd e) = fst e"
        using ok e by (rule table_ok_ident)
      moreover have "snd e \<in> set (jm_values (cartItems st))"
        using e by (simp add: jm_values_def)
      ultimately show "ci_userId (snd e) \<noteq> u"
        by force
    next
      assume n: "ci_userId (snd e) \<noteq> u"
      show "fst e \<notin> ci_id ` set ?its"
      proof
        assume "fst e \<in> ci_id ` set ?its"
        then obtain e' where e': "e' \<in> set (cartItems st)" and u: "ci_userId (snd e') = u"
          and k: "ci_id (snd e') = fst e"
          by (auto simp: jm_values_def)
        have "fst e' = fst e"
          using table_ok_ident [OF ok e'] k by simp
        with d e e' have "e' = e"
          by (metis eq_key_imp_eq_value prod.collapse)
        with u n show False by simp
      qed
    qed
  qed
  then have "filter (\<lambda>e. fst e \<notin> ci_id ` set ?its) (cartItems st) =
             filter (\<lambda>e. ci_userId (snd e) \<noteq> u) (cartItems st)"
    by (intro filter_cong) auto
  then show ?thesis
    by (simp add: clearCart_def clear_fold)
qed

lemma clearCart_frame:
  "products (clearCart st u) = products st"
  "orders (clearCart st u) = orders st"
  "orderItems (clearCart st u) = orderItems st"
  "productId (clearCart st u) = productId st"
  "cartItemId (clearCart st u) = cartItemId st"
  "orderId (clearCart st u) = orderId st"
  "orderItemId (clearCart st u) = orderItemId st"
  "categories (clearCart st u) = categories st"
  "categoryId (clearCart st u) = categoryId st"
  by (simp_all add: clearCart_def clear_fold)

subsection \<open>The cart methods, case by case\<close>

lemma new_cart_item_fields:
  "ci_id (InsertCartItem.extend ins (CartItem.fields k)) = k"
  "ci_userId (InsertCartItem.extend ins (CartItem.fields k)) = ci_userId ins"
  "ci_productId (InsertCartItem.extend ins (CartItem.fields k)) = ci_productId ins"
  "ci_quantity (InsertCartItem.extend ins (CartItem.fields k)) = ci_quantity ins"
  by (simp_all add: InsertCartItem.defs CartItem.defs)

lemma getCartItem_Some:
  "getCartItem st u p = Some e \<Longrightarrow>
   e \<in> set (jm_values (cartItems st)) \<and> ci_userId e = u \<and> ci_productId e = p"
  by (auto simp: getCartItem_def find_Some_iff)

lemma getCartItem_None: "getCartItem st u p = None \<Longrightarrow> cart_lines st u p = []"
  by (auto simp: getCartItem_def cart_lines_def find_None_iff filter_empty_conv)

lemma find_filter: "find P xs = (case filter P xs of [] \<Rightarrow> None | x # _ \<Rightarrow> Some x)"
  by (induction xs) simp_all

lemma getCartItem_hd:
  "getCartItem st u p = (case cart_lines st u p of [] \<Rightarrow> None | x # _ \<Rightarrow> Some x)"
  by (simp add: getCartItem_def cart_lines_def find_filter)

lemma addCartItem_existing:
  "getCartItem st (ci_userId ins) (ci_productId ins) = Some e \<Longrightarrow>
   addCartItem st ins =
     (st\<lparr>cartItems := jm_set (cartItems st) (ci_id e)
            (e\<lparr>ci_quantity :=
                 Some (js_add (ToNumber (ci_quantity e)) (ToNumber (ci_quantity ins)))\<rparr>)\<rparr>,
      e\<lparr>ci_quantity := Some (js_add (ToNumber (ci_quantity e)) (ToNumber (ci_quantity ins)))\<rparr>)"
  by (simp add: addCartItem_def Let_def)

lemma addCartItem_new:
  "getCartItem st (ci_userId ins) (ci_productId ins) = None \<Longrightarrow>
   addCartItem st ins =
     (st\<lparr>cartItemId := cartItemId st + 1,
         cartItems := jm_set (cartItems st) (cartItemId st)
            (InsertCartItem.extend ins (CartItem.fields (cartItemId st)))\<rparr>,
      InsertCartItem.extend ins (CartItem.fields (cartItemId st)))"
  by (simp add: addCartItem_def Let_def)

lemma addCartItem_cart_ok:
  assumes ok: "table_ok ci_id (cartItemId st) (cartItems st)"
  shows "table_ok ci_id (cartItemId (fst (addCartItem st ins))) (cartItems (fst (addCartItem st ins)))"
proof (cases "getCartItem st (ci_userId ins) (ci_productId ins)")
  case None
  then show ?thesis
    using ok by (simp add: addCartItem_new table_ok_set_fresh new_cart_item_fields)
next
  case (Some e)
  then have "ci_id e \<in> fst ` set (cartItems st)"
    using ok by (blast dest: getCartItem_Some intro: value_key)
  then show ?thesis
    using ok Some by (simp add: addCartItem_existing table_ok_set_present)
qed

lemma updateCartItem_cart_ok:
  assumes ok: "table_ok ci_id (cartItemId st) (cartItems st)"
  shows "table_ok ci_id (cartItemId st) (cartItems (fst (updateCartItem st k q)))"
proof (cases "jm_get (cartItems st) k")
  case None
  then show ?thesis using ok by (simp add: updateCartItem_def)
next
  case (Some x)
  then have e: "(k, x) \<in> set (cartItems st)" by (rule jm_get_Some)
  then have "ci_id x = k" using table_ok_ident [OF ok e] by simp
  moreover have "k \<in> fst ` set (cartItems st)" using e by force
  ultimately show ?thesis
    using ok Some by (simp add: updateCartItem_def Let_def table_ok_set_present)
qed

subsection \<open>\<open>createOrder\<close>: the loop over the line items\<close>

lemma new_order_item_fields:
  "oi_id (InsertOrderItem.extend item (OrderItem.fields k)) = k"
  "oi_orderId (InsertOrderItem.extend item (OrderItem.fields k)) = oi_orderId item"
  "InsertOrderItem.truncate (InsertOrderItem.extend item (OrderItem.fields k)) = item"
  by (simp_all add: InsertOrderItem.defs OrderItem.defs)

lemma add_order_item_eq:
  "table_ok oi_id (orderItemId st) (orderItems st) \<Longrightarrow>
   add_order_item k item st =
     st\<lparr>orderItemId := orderItemId st + 1,
        orderItems := orderItems st @
          [(orderItemId st,
            InsertOrderItem.extend (item\<lparr>oi_orderId := k\<rparr>) (OrderItem.fields (orderItemId st)))]\<rparr>"
  by (simp add: add_order_item_def Let_def jm_set_fresh table_ok_keys_below)

lemma fold_add_order_item:
  assumes "table_ok oi_id (orderItemId st) (orderItems st)"
  shows "\<exists>new n.
     fold (add_order_item k) items st =
       st\<lparr>orderItemId := n, orderItems := orderItems st @ new\<rparr> \<and>
     map (\<lambda>e. InsertOrderItem.truncate (snd e)) new = map (\<lambda>item. item\<lparr>oi_orderId := k\<rparr>) items \<and>
     (\<forall>e \<in> set new. oi_orderId (snd e) = k) \<and>
     table_ok oi_id n (orderItems st @ new)"
  using assms
proof (induction items arbitrary: st)
  case Nil
  then show ?case
    by (intro exI [of _ "[]"] exI [of _ "orderItemId st"]) simp
next
  case (Cons item items)
  let ?c = "orderItemId st"
  let ?x = "InsertOrderItem.extend (item\<lparr>oi_orderId := k\<rparr>) (OrderItem.fields ?c)"
  let ?st1 = "st\<lparr>orderItemId := ?c + 1, orderItems := orderItems st @ [(?c, ?x)]\<rparr>"
  have step: "add_order_item k item st = ?st1"
    using Cons.prems by (rule add_order_item_eq)
  have ok1: "table_ok oi_id (orderItemId ?st1) (orderItems ?st1)"
    using Cons.prems by (simp add: table_ok_append new_order_item_fields)
  from Cons.IH [OF ok1] obtain new n where
    f: "fold (add_order_item k) items ?st1 =
          ?st1\<lparr>orderItemId := n, orderItems := orderItems ?st1 @ new\<rparr>"
    and m: "map (\<lambda>e. InsertOrderItem.truncate (snd e)) new =
            map (\<lambda>item. item\<lparr>oi_orderId := k\<rparr>) items"
    and o: "\<forall>e \<in> set new. oi_orderId (snd e) = k"
    and t: "table_ok oi_id n (orderItems ?st1 @ new)"
    by blast
  let ?new = "(?c, ?x) # new"
  have "fold (add_order_item k) (item # items) st =
        st\<lparr>orderItemId := n, orderItems := orderItems st @ ?new\<rparr>"
    using f step by simp
  moreover have "map (\<lambda>e. InsertOrderItem.truncate (snd e)) ?new =
                 map (\<lambda>item. item\<lparr>oi_orderId := k\<rparr>) (item # items)"
    using m by (simp add: new_order_item_fields)
  moreover have "\<forall>e \<in> set ?new. oi_orderId (snd e) = k"
    using o by (simp add: new_order_item_fields)
  moreover have "table_ok oi_id n (orderItems st @ ?new)"
    using t by simp
  ultimately show ?case by blast
qed

lemma new_order_fields:
  "o_id (InsertOrder.extend orderData (Order.fields k now)) = k"
  "o_userId (InsertOrder.extend orderData (Order.fields k now)) = o_userId orderData"
  "InsertOrder.truncate (InsertOrder.extend orderData (Order.fields k now)) = orderData"
  by (simp_all add: InsertOrder.defs Order.defs)

text \<open>\<open>createOrder\<close> on well-formed order tables, in closed form.\<close>

lemma createOrder_eq:
  assumes ok: "orders_ok st"
  shows "\<exists>new n.
     createOrder st orderData items now =
       (st\<lparr>orderId := orderId st + 1,
           orders := orders st @ [(orderId st, InsertOrder.extend orderData (Order.fields (orderId st) now))],
           orderItemId := n, orderItems := orderItems st @ new\<rparr>,
        InsertOrder.extend orderData (Order.fields (orderId st) now)) \<and>
     map (\<lambda>e. InsertOrderItem.truncate (snd e)) new =
       map (\<lambda>item. item\<lparr>oi_orderId := orderId st\<rparr>) items \<and>
     (\<forall>e \<in> set new. oi_orderId (snd e) = orderId st) \<and>
     table_ok oi_id n (orderItems st @ new)"
proof -
  let ?k = "orderId st"
  let ?order = "InsertOrder.extend orderData (Order.fields ?k now)"
  let ?st1 = "st\<lparr>orderId := ?k + 1, orders := orders st @ [(?k, ?order)]\<rparr>"
  have "\<forall>e \<in> set (orders st). fst e < ?k"
    using ok by (simp add: orders_ok_def table_ok_def)
  then have o: "jm_set (orders st) ?k ?order = orders st @ [(?k, ?order)]"
    by (rule jm_set_fresh)
  have "table_ok oi_id (orderItemId ?st1) (orderItems ?st1)"
    using ok by (simp add: orders_ok_def)
  from fold_add_order_item [OF this, of ?k items] obtain new n where
    f: "fold (add_order_item ?k) items ?st1 =
          ?st1\<lparr>orderItemId := n, orderItems := orderItems ?st1 @ new\<rparr>"
    and rest: "map (\<lambda>e. InsertOrderItem.truncate (snd e)) new =
            map (\<lambda>item. item\<lparr>oi_orderId := ?k\<rparr>) items"
      "\<forall>e \<in> set new. oi_orderId (snd e) = ?k"
      "table_ok oi_id n (orderItems ?st1 @ new)"
    by blast
  have "createOrder st orderData items now =
        (?st1\<lparr>orderItemId := n, orderItems := orderItems ?st1 @ new\<rparr>, ?order)"
    by (simp add: createOrder_def Let_def o f)
  with rest show ?thesis by auto
qed

lemma createOrder_frame:
  "products (fst (createOrder st orderData items now)) = products st"
  "cartItems (fst (createOrder st orderData items now)) = cartItems st"
  "productId (fst (createOrder st orderData items now)) = productId st"
  "cartItemId (fst (createOrder st orderData items now)) = cartItemId st"
proof -
  have "\<And>s. products (fold (add_order_item k) items s) = products s \<and>
            cartItems (fold (add_order_item k) items s) = cartItems s \<and>
            productId (fold (add_order_item k) items s) = productId s \<and>
            cartItemId (fold (add_order_item k) items s) = cartItemId s" for k
    by (induction items) (simp_all add: add_order_item_def Let_def)
  then show "products (fst (createOrder st orderData items now)) = products st"
    "cartItems (fst (createOrder st orderData items now)) = cartItems st"
    "productId (fst (createOrder st orderData items now)) = productId st"
    "cartItemId (fst (createOrder st orderData items now)) = cartItemId st"
    by (simp_all add: createOrder_def Let_def)
qed

lemma createOrder_orders_ok:
  assumes ok: "orders_ok st"
  shows "orders_ok (fst (createOrder st orderData items now))"
proof -
  let ?k = "orderId st"
  let ?order = "InsertOrder.extend orderData (Order.fields ?k now)"
  from createOrder_eq [OF ok, of orderData items now] obtain new n where
    c: "createOrder st orderData items now =
       (st\<lparr>orderId := ?k + 1, orders := orders st @ [(?k, ?order)],
           orderItemId := n, orderItems := orderItems st @ new\<rparr>, ?order)"
    and o: "\<forall>e \<in> set new. oi_orderId (snd e) = ?k"
    and t: "table_ok oi_id n (orderItems st @ new)"
    by blast
  have "table_ok o_id (?k + 1) (orders st @ [(?k, ?order)])"
    using ok by (simp add: orders_ok_def table_ok_append new_order_fields)
  moreover have "\<forall>e \<in> set (orderItems st @ new). oi_orderId (snd e) < ?k + 1"
    using ok o by (auto simp: orders_ok_def)
  ultimately show ?thesis
    using t by (simp add: c orders_ok_def)
qed

subsection \<open>Every mutating call keeps the store well-formed\<close>

lemma cart_call_frame:
  "products (apply_cart_call c st) = products st"
  "orders (apply_cart_call c st) = orders st"
  "orderItems (apply_cart_call c st) = orderItems st"
  "productId (apply_cart_call c st) = productId st"
  "orderId (apply_cart_call c st) = orderId st"
  "orderItemId (apply_cart_call c st) = orderItemId st"
  by (cases c; simp add: addCartItem_frame updateCartItem_frame removeCartItem_frame
      clearCart_frame)+

lemma cart_call_orders_ok: "orders_ok (apply_cart_call c st) = orders_ok st"
  by (simp add: orders_ok_def cart_call_frame)

lemma cart_call_cart_ok:
  assumes ok: "table_ok ci_id (cartItemId st) (cartItems st)"
  shows "table_ok ci_id (cartItemId (apply_cart_call c st)) (cartItems (apply_cart_call c st))"
proof (cases c)
  case (AddCartItem ins)
  then show ?thesis using ok by (simp add: addCartItem_cart_ok)
next
  case (UpdateCartItem k q)
  then show ?thesis using ok by (simp add: updateCartItem_cart_ok updateCartItem_frame)
next
  case (RemoveCartItem k)
  then show ?thesis using ok by (simp add: removeCartItem_def table_ok_delete)
next
  case (ClearCart u)
  then show ?thesis using ok by (simp add: clearCart_eq table_ok_filter)
qed

lemma cart_call_store_ok: "store_ok st \<Longrightarrow> store_ok (apply_cart_call c st)"
  by (simp add: store_ok_def cart_call_frame cart_call_orders_ok cart_call_cart_ok)

lemma createOrder_store_ok:
  "store_ok st \<Longrightarrow> store_ok (fst (createOrder st orderData items now))"
  by (simp add: store_ok_def createOrder_frame createOrder_orders_ok)

lemma apply_call_store_ok: "store_ok st \<Longrightarrow> store_ok (apply_call c st)"
  by (cases c) (simp_all add: cart_call_store_ok createOrder_store_ok)

lemma run_calls_store_ok: "store_ok st \<Longrightarrow> store_ok (run_calls calls st)"
  unfolding run_calls_def
  by (induction calls arbitrary: st) (simp_all add: apply_call_store_ok)

lemma new_MemStorage_ok: "store_ok new_MemStorage"
  by code_simp

lemma demo_store_ok: "store_ok demo_store"
  unfolding demo_store_def by (rule run_calls_store_ok) (rule new_MemStorage_ok)

subsection \<open>The sample store\<close>

lemma demo_cartItems:
  "cartItems demo_store =
     [(1, \<lparr>ci_userId = 1, ci_productId = 999, ci_quantity = Some (Finite 1), ci_id = 1\<rparr>),
      (2, \<lparr>ci_userId = 2, ci_productId = 19, ci_quantity = Some (Finite 2), ci_id = 2\<rparr>)]"
  by code_simp

lemma demo_orders:
  "orders demo_store =
     [(1, \<lparr>o_userId = 1, o_total = 5, o_status = ''pending'', o_id = 1,
           o_createdAt = 1700000000000\<rparr>)]"
  by code_simp

lemma demo_orderItems:
  "orderItems demo_store =
     [(1, \<lparr>oi_orderId = 1, oi_productId = 999, oi_quantity = 1, oi_price = 5, oi_id = 1\<rparr>)]"
  by code_simp

lemma demo_no_product_999: "getProduct demo_store 999 = None"
  by code_simp

lemma getCartItems_eq:
  "getCartItems st u =
     map (\<lambda>item. CartItem.extend item
                   (CartItemWithProduct.fields (getProduct st (ci_productId item))))
       (filter (\<lambda>item. ci_userId item = u) (jm_values (cartItems st)))"
  by (simp add: getCartItems_def)

subsection \<open>Clearing a cart\<close>

text \<open>
  Claim C8. In a well-formed store, after \<open>clearCart(u)\<close> the cart of \<open>u\<close> is empty, the
  cart of every other user reads as before, and products, orders and order items are
  the same tables.
\<close>

theorem clearCart_effect:
  assumes "store_ok st"
  shows "getCartItems (clearCart st u) u = [] \<and>
         (\<forall>v. v \<noteq> u \<longrightarrow> getCartItems (clearCart st u) v = getCartItems st v) \<and>
         products (clearCart st u) = products st \<and>
         orders (clearCart st u) = orders st \<and>
         orderItems (clearCart st u) = orderItems st"
proof -
  have ok: "table_ok ci_id (cartItemId st) (cartItems st)"
    using assms by (simp add: store_ok_def)
  have v: "jm_values (cartItems (clearCart st u)) =
           filter (\<lambda>item. ci_userId item \<noteq> u) (jm_values (cartItems st))"
    by (simp add: clearCart_eq [OF ok] jm_values_def filter_map comp_def)
  have p: "\<And>k. getProduct (clearCart st u) k = getProduct st k"
    by (simp add: getProduct_def clearCart_frame)
  have own: "getCartItems (clearCart st u) u = []"
    by (simp add: getCartItems_eq v)
  have others: "\<forall>v. v \<noteq> u \<longrightarrow> getCartItems (clearCart st u) v = getCartItems st v"
  proof (intro allI impI)
    fix w
    assume "w \<noteq> u"
    then have "filter (\<lambda>item. ci_userId item = w)
                 (filter (\<lambda>item. ci_userId item \<noteq> u) (jm_values (cartItems st))) =
               filter (\<lambda>item. ci_userId item = w) (jm_values (cartItems st))"
      by (auto intro: filter_cong)
    then show "getCartItems (clearCart st u) w = getCartItems st w"
      by (simp add: getCartItems_eq v p)
  qed
  from own others show ?thesis
    by (simp add: clearCart_frame)
qed

theorem clearCart_effect_witness:
  "store_ok demo_store \<and>
   getCartItems demo_store 1 \<noteq> [] \<and>
   getCartItems (clearCart demo_store 1) 1 = [] \<and>
   getCartItems (clearCart demo_store 1) 2 = getCartItems demo_store 2 \<and>
   getCartItems demo_store 2 \<noteq> [] \<and>
   products (clearCart demo_store 1) = products demo_store \<and>
   orders (clearCart demo_store 1) = orders demo_store \<and>
   orderItems (clearCart demo_store 1) = orderItems demo_store"
proof -
  have "getCartItems demo_store 1 \<noteq> []" and "getCartItems demo_store 2 \<noteq> []"
    by (simp_all add: getCartItems_eq demo_cartItems jm_values_def)
  moreover have "(2::int) \<noteq> 1" by simp
  ultimately show ?thesis
    using clearCart_effect [OF demo_store_ok, of 1] demo_store_ok by blast
qed

subsection \<open>Joins with a missing product\<close>

lemma cart_join_fields:
  "CartItem.truncate (CartItem.extend item (CartItemWithProduct.fields p)) = item"
  "ci_product (CartItem.extend item (CartItemWithProduct.fields p)) = p"
  by (simp_all add: CartItem.defs CartItemWithProduct.defs InsertCartItem.defs)

lemma order_item_join_fields:
  "OrderItem.truncate (OrderItem.extend item (OrderItemWithProduct.fields p)) = item"
  "oi_product (OrderItem.extend item (OrderItemWithProduct.fields p)) = p"
  "oi_price (OrderItem.extend item (OrderItemWithProduct.fields p)) = oi_price item"
  "oi_productId (OrderItem.extend item (OrderItemWithProduct.fields p)) = oi_productId item"
  "oi_quantity (OrderItem.extend item (OrderItemWithProduct.fields p)) = oi_quantity item"
  by (simp_all add: OrderItem.defs OrderItemWithProduct.defs InsertOrderItem.defs)

lemma order_join_fields:
  "Order.truncate (Order.extend order (OrderWithItems.fields its)) = order"
  "o_items (Order.extend order (OrderWithItems.fields its)) = its"
  by (simp_all add: Order.defs OrderWithItems.defs InsertOrder.defs)

lemma getOrder_eq:
  "jm_get (orders st) k = Some order \<Longrightarrow>
   getOrder st k =
     Some (Order.extend order (OrderWithItems.fields
       (map (\<lambda>item. OrderItem.extend item
                      (OrderItemWithProduct.fields (getProduct st (oi_productId item))))
          (filter (\<lambda>item. oi_orderId item = k) (jm_values (orderItems st))))))"
  by (simp add: getOrder_def)

text \<open>
  Claim C10. \<open>getCartItems\<close> and \<open>getOrder\<close> are total and drop no line: the lines of
  the answer, without the joined field, are exactly the stored lines of the user (of the
  order), and a line whose product is not in the store is returned with an undefined
  \<open>product\<close>.
\<close>

theorem joins_keep_items_without_product:
  "(\<forall>item \<in> set (jm_values (cartItems st)).
      ci_userId item = u \<and> getProduct st (ci_productId item) = None \<longrightarrow>
      (\<exists>r \<in> set (getCartItems st u). CartItem.truncate r = item \<and> ci_product r = None)) \<and>
   map CartItem.truncate (getCartItems st u) =
     filter (\<lambda>item. ci_userId item = u) (jm_values (cartItems st)) \<and>
   (\<forall>order. jm_get (orders st) oid = Some order \<longrightarrow>
      (\<exists>r. getOrder st oid = Some r \<and> Order.truncate r = order \<and>
         map OrderItem.truncate (o_items r) =
           filter (\<lambda>item. oi_orderId item = oid) (jm_values (orderItems st)) \<and>
         (\<forall>item \<in> set (jm_values (orderItems st)).
            oi_orderId item = oid \<and> getProduct st (oi_productId item) = None \<longrightarrow>
            (\<exists>ri \<in> set (o_items r). OrderItem.truncate ri = item \<and> oi_product ri = None))))"
proof (intro conjI ballI allI impI)
  fix item
  assume "item \<in> set (jm_values (cartItems st))"
    and "ci_userId item = u \<and> getProduct st (ci_productId item) = None"
  then have "CartItem.extend item (CartItemWithProduct.fields None) \<in> set (getCartItems st u)"
    by (force simp: getCartItems_eq)
  then show "\<exists>r \<in> set (getCartItems st u). CartItem.truncate r = item \<and> ci_product r = None"
    using cart_join_fields by blast
next
  show "map CartItem.truncate (getCartItems st u) =
     filter (\<lambda>item. ci_userId item = u) (jm_values (cartItems st))"
    by (simp add: getCartItems_eq comp_def cart_join_fields)
next
  fix order
  assume o: "jm_get (orders st) oid = Some order"
  let ?its = "filter (\<lambda>item. oi_orderId item = oid) (jm_values (orderItems st))"
  let ?join = "\<lambda>item. OrderItem.extend item
                 (OrderItemWithProduct.fields (getProduct st (oi_productId item)))"
  let ?r = "Order.extend order (OrderWithItems.fields (map ?join ?its))"
  have r: "getOrder st oid = Some ?r"
    using o by (rule getOrder_eq)
  have t: "Order.truncate ?r = order"
    by (simp add: order_join_fields)
  have i: "o_items ?r = map ?join ?its"
    by (simp add: order_join_fields)
  have m: "map OrderItem.truncate (o_items ?r) = ?its"
    by (simp add: i comp_def order_item_join_fields)
  have "\<forall>item \<in> set (jm_values (orderItems st)).
            oi_orderId item = oid \<and> getProduct st (oi_productId item) = None \<longrightarrow>
            (\<exists>ri \<in> set (o_items ?r). OrderItem.truncate ri = item \<and> oi_product ri = None)"
  proof (intro ballI impI)
    fix item
    assume "item \<in> set (jm_values (orderItems st))"
      and h: "oi_orderId item = oid \<and> getProduct st (oi_productId item) = None"
    then have "item \<in> set ?its" by simp
    then have "?join item \<in> set (o_items ?r)"
      unfolding i set_map by (rule imageI)
    moreover have "?join item = OrderItem.extend item (OrderItemWithProduct.fields None)"
      using h by simp
    ultimately show
      "\<exists>ri \<in> set (o_items ?r). OrderItem.truncate ri = item \<and> oi_product ri = None"
      using order_item_join_fields(1,2) by metis
  qed
  with r t m show "\<exists>r. getOrder st oid = Some r \<and> Order.truncate r = order \<and>
         map OrderItem.truncate (o_items r) =
           filter (\<lambda>item. oi_orderId item = oid) (jm_values (orderItems st)) \<and>
         (\<forall>item \<in> set (jm_values (orderItems st)).
            oi_orderId item = oid \<and> getProduct st (oi_productId item) = None \<longrightarrow>
            (\<exists>ri \<in> set (o_items r). OrderItem.truncate ri = item \<and> oi_product ri = None))"
    by blast
qed

theorem joins_keep_items_without_product_witness:
  "(\<exists>item \<in> set (jm_values (cartItems demo_store)).
      ci_userId item = 1 \<and> getProduct demo_store (ci_productId item) = None \<and>
      (\<exists>r \<in> set (getCartItems demo_store 1). CartItem.truncate r = item \<and> ci_product r = None)) \<and>
   (\<exists>order r. jm_get (orders demo_store) 1 = Some order \<and> getOrder demo_store 1 = Some r \<and>
      (\<exists>item \<in> set (jm_values (orderItems demo_store)).
         oi_orderId item = 1 \<and> getProduct demo_store (oi_productId item) = None \<and>
         (\<exists>ri \<in> set (o_items r). OrderItem.truncate ri = item \<and> oi_product ri = None)))"
proof -
  let ?c = "\<lparr>ci_userId = 1, ci_productId = 999, ci_quantity = Some (Finite 1), ci_id = 1\<rparr>"
  let ?o = "\<lparr>o_userId = 1, o_total = 5, o_status = ''pending'', o_id = 1,
             o_createdAt = 1700000000000\<rparr>"
  let ?i = "\<lparr>oi_orderId = 1, oi_productId = 999, oi_quantity = 1, oi_price = 5, oi_id = 1\<rparr>"
  note inst = joins_keep_items_without_product [of demo_store 1 1]
  have c: "?c \<in> set (jm_values (cartItems demo_store))"
    by (simp add: demo_cartItems jm_values_def)
  have ch: "ci_userId ?c = 1 \<and> getProduct demo_store (ci_productId ?c) = None"
    by (simp add: demo_no_product_999)
  have o: "jm_get (orders demo_store) 1 = Some ?o"
    by (simp add: demo_orders jm_get_def)
  have i: "?i \<in> set (jm_values (orderItems demo_store))"
    by (simp add: demo_orderItems jm_values_def)
  have ih: "oi_orderId ?i = 1 \<and> getProduct demo_store (oi_productId ?i) = None"
    by (simp add: demo_no_product_999)
  from inst c ch have
    "\<exists>r \<in> set (getCartItems demo_store 1). CartItem.truncate r = ?c \<and> ci_product r = None"
    by blast
  with c ch have first:
    "\<exists>item \<in> set (jm_values (cartItems demo_store)).
      ci_userId item = 1 \<and> getProduct demo_store (ci_productId item) = None \<and>
      (\<exists>r \<in> set (getCartItems demo_store 1). CartItem.truncate r = item \<and> ci_product r = None)"
    by blast
  from inst o obtain r where r: "getOrder demo_store 1 = Some r"
    and all: "\<forall>item \<in> set (jm_values (orderItems demo_store)).
            oi_orderId item = 1 \<and> getProduct demo_store (oi_productId item) = None \<longrightarrow>
            (\<exists>ri \<in> set (o_items r). OrderItem.truncate ri = item \<and> oi_product ri = None)"
    by blast
  from all i ih have
    "\<exists>ri \<in> set (o_items r). OrderItem.truncate ri = ?i \<and> oi_product ri = None"
    by blast
  with i ih have
    "\<exists>item \<in> set (jm_values (orderItems demo_store)).
         oi_orderId item = 1 \<and> getProduct demo_store (oi_productId item) = None \<and>
         (\<exists>ri \<in> set (o_items r). OrderItem.truncate ri = item \<and> oi_product ri = None)"
    by blast
  with o r first show ?thesis by blast
qed

subsection \<open>One cart line per user and product\<close>

lemma values_ident_distinct:
  assumes "table_ok ident c m"
  shows "distinct (map ident (jm_values m))"
proof -
  have "map ident (jm_values m) = map fst m"
    using table_ok_ident [OF assms] by (simp add: jm_values_def)
  then show ?thesis
    using assms by (simp add: table_ok_distinct)
qed

lemma same_ident_same_value:
  assumes "table_ok ident c m" and "x \<in> set (jm_values m)" and "y \<in> set (jm_values m)"
    and "ident x = ident y"
  shows "x = y"
  using values_ident_distinct [OF assms(1)] assms(2-4)
  by (meson distinct_map inj_onD)

lemma map_replace_absent: "e \<notin> set xs \<Longrightarrow> map (\<lambda>x. if x = e then v else x) xs = xs"
  by (induction xs) auto

lemma filter_map_replace:
  "P v = P x0 \<Longrightarrow>
   filter P (map (\<lambda>x. if x = x0 then v else x) xs) =
   map (\<lambda>x. if x = x0 then v else x) (filter P xs)"
  by (induction xs) auto

lemma length_filter_conj: "length (filter (\<lambda>e. Q e \<and> P e) xs) \<le> length (filter Q xs)"
  by (induction xs) auto

text \<open>Replacing the row \<open>x0\<close> by a row for the same user and product.\<close>

lemma cart_lines_replace:
  assumes ok: "table_ok ci_id (cartItemId st) (cartItems st)"
    and x0: "x0 \<in> set (jm_values (cartItems st))"
    and same: "ci_userId v = ci_userId x0" "ci_productId v = ci_productId x0"
  shows "cart_lines (st\<lparr>cartItems := jm_set (cartItems st) (ci_id x0) v\<rparr>) u p =
         map (\<lambda>x. if x = x0 then v else x) (cart_lines st u p)"
proof -
  let ?xs = "jm_values (cartItems st)"
  let ?P = "\<lambda>item. ci_userId item = u \<and> ci_productId item = p"
  have key: "ci_id x0 \<in> fst ` set (cartItems st)"
    using ok x0 by (rule value_key)
  have "jm_values (jm_set (cartItems st) (ci_id x0) v) =
        map (\<lambda>x. if ci_id x = ci_id x0 then v else x) ?xs"
    using ok key by (rule values_set_present)
  also have "\<dots> = map (\<lambda>x. if x = x0 then v else x) ?xs"
    using same_ident_same_value [OF ok _ x0] by (intro map_cong) auto
  finally have vals: "jm_values (jm_set (cartItems st) (ci_id x0) v) =
                      map (\<lambda>x. if x = x0 then v else x) ?xs" .
  have "filter ?P (map (\<lambda>x. if x = x0 then v else x) ?xs) =
        map (\<lambda>x. if x = x0 then v else x) (filter ?P ?xs)"
    using same by (intro filter_map_replace) simp
  then show ?thesis
    by (simp add: cart_lines_def vals)
qed

lemma cart_lines_single:
  assumes "cart_unique st" and "getCartItem st u p = Some e"
  shows "cart_lines st u p = [e]"
proof -
  have "length (cart_lines st u p) \<le> 1"
    using assms(1) by (simp add: cart_unique_def)
  with assms(2) show ?thesis
    by (cases "cart_lines st u p") (simp_all add: getCartItem_hd)
qed

lemma addCartItem_lines:
  assumes ok: "table_ok ci_id (cartItemId st) (cartItems st)" and uniq: "cart_unique st"
  shows "cart_lines (fst (addCartItem st ins)) u p =
           (if u = ci_userId ins \<and> p = ci_productId ins then [snd (addCartItem st ins)]
            else cart_lines st u p)"
    and "ci_quantity (snd (addCartItem st ins)) =
           (case getCartItem st (ci_userId ins) (ci_productId ins) of
              None \<Rightarrow> ci_quantity ins
            | Some e \<Rightarrow> Some (js_add (ToNumber (ci_quantity e)) (ToNumber (ci_quantity ins))))"
proof -
  let ?u = "ci_userId ins" and ?p = "ci_productId ins"
  show "cart_lines (fst (addCartItem st ins)) u p =
           (if u = ?u \<and> p = ?p then [snd (addCartItem st ins)] else cart_lines st u p)"
  proof (cases "getCartItem st ?u ?p")
    case None
    let ?new = "InsertCartItem.extend ins (CartItem.fields (cartItemId st))"
    have "jm_values (jm_set (cartItems st) (cartItemId st) ?new) =
          jm_values (cartItems st) @ [?new]"
      using ok by (rule values_set_fresh)
    then have "cart_lines (fst (addCartItem st ins)) u p =
               cart_lines st u p @ (if u = ?u \<and> p = ?p then [?new] else [])"
      using None by (auto simp: addCartItem_new cart_lines_def new_cart_item_fields)
    moreover have "cart_lines st ?u ?p = []"
      using None by (rule getCartItem_None)
    ultimately show ?thesis
      using None by (auto simp: addCartItem_new)
  next
    case (Some e)
    let ?v = "e\<lparr>ci_quantity :=
                 Some (js_add (ToNumber (ci_quantity e)) (ToNumber (ci_quantity ins)))\<rparr>"
    from getCartItem_Some [OF Some] have e: "e \<in> set (jm_values (cartItems st))"
      and eu: "ci_userId e = ?u" and ep: "ci_productId e = ?p"
      by simp_all
    have l: "cart_lines (fst (addCartItem st ins)) u p =
             map (\<lambda>x. if x = e then ?v else x) (cart_lines st u p)"
      using cart_lines_replace [OF ok e, of ?v u p] Some by (simp add: addCartItem_existing)
    show ?thesis
    proof (cases "u = ?u \<and> p = ?p")
      case True
      then have "cart_lines st u p = [e]"
        using cart_lines_single [OF uniq Some] by simp
      with True l Some show ?thesis
        by (simp add: addCartItem_existing)
    next
      case False
      then have "e \<notin> set (cart_lines st u p)"
        using eu ep by (auto simp: cart_lines_def)
      then have "map (\<lambda>x. if x = e then ?v else x) (cart_lines st u p) = cart_lines st u p"
        by (rule map_replace_absent)
      with l have "cart_lines (fst (addCartItem st ins)) u p = cart_lines st u p"
        by simp
      then show ?thesis
        by (simp only: if_not_P [OF False])
    qed
  qed
  show "ci_quantity (snd (addCartItem st ins)) =
           (case getCartItem st ?u ?p of
              None \<Rightarrow> ci_quantity ins
            | Some e \<Rightarrow> Some (js_add (ToNumber (ci_quantity e)) (ToNumber (ci_quantity ins))))"
    by (cases "getCartItem st ?u ?p")
      (simp_all add: addCartItem_new addCartItem_existing new_cart_item_fields)
qed

lemma addCartItem_unique:
  assumes "table_ok ci_id (cartItemId st) (cartItems st)" and "cart_unique st"
  shows "cart_unique (fst (addCartItem st ins))"
  using assms(2) by (simp add: cart_unique_def addCartItem_lines(1) [OF assms])

lemma updateCartItem_unique:
  assumes ok: "table_ok ci_id (cartItemId st) (cartItems st)" and uniq: "cart_unique st"
  shows "cart_unique (fst (updateCartItem st k q))"
proof (cases "jm_get (cartItems st) k")
  case None
  then show ?thesis using uniq by (simp add: updateCartItem_def)
next
  case (Some x)
  then have e: "(k, x) \<in> set (cartItems st)" by (rule jm_get_Some)
  have k: "ci_id x = k" using table_ok_ident [OF ok e] by simp
  have x: "x \<in> set (jm_values (cartItems st))" using Some by (rule jm_get_values)
  have "\<And>u p. cart_lines (fst (updateCartItem st k q)) u p =
          map (\<lambda>y. if y = x then x\<lparr>ci_quantity := Some q\<rparr> else y) (cart_lines st u p)"
    using cart_lines_replace [OF ok x, of "x\<lparr>ci_quantity := Some q\<rparr>"] Some k
    by (simp add: updateCartItem_def Let_def)
  then show ?thesis
    using uniq by (simp add: cart_unique_def)
qed

lemma cart_lines_filtered:
  assumes "cartItems st' = filter P (cartItems st)"
  shows "length (cart_lines st' u p) \<le> length (cart_lines st u p)"
proof -
  let ?Q = "\<lambda>e. ci_userId (snd e) = u \<and> ci_productId (snd e) = p"
  have "cart_lines st' u p = map snd (filter (\<lambda>e. ?Q e \<and> P e) (cartItems st))"
    using assms by (simp add: cart_lines_def jm_values_def filter_map comp_def conj_commute)
  moreover have "cart_lines st u p = map snd (filter ?Q (cartItems st))"
    by (simp add: cart_lines_def jm_values_def filter_map comp_def)
  ultimately show ?thesis
    using length_filter_conj [of ?Q P "cartItems st"] by simp
qed

lemma cart_unique_filtered:
  assumes "cartItems st' = filter P (cartItems st)" and "cart_unique st"
  shows "cart_unique st'"
  unfolding cart_unique_def
proof (intro allI)
  fix u p
  have "length (cart_lines st' u p) \<le> length (cart_lines st u p)"
    using assms(1) by (rule cart_lines_filtered)
  moreover have "length (cart_lines st u p) \<le> 1"
    using assms(2) by (simp add: cart_unique_def)
  ultimately show "length (cart_lines st' u p) \<le> 1"
    by (rule order_trans)
qed

lemma cart_call_unique:
  assumes ok: "table_ok ci_id (cartItemId st) (cartItems st)" and uniq: "cart_unique st"
  shows "cart_unique (apply_cart_call c st)"
proof (cases c)
  case (AddCartItem ins)
  then show ?thesis using ok uniq by (simp add: addCartItem_unique)
next
  case (UpdateCartItem k q)
  then show ?thesis using ok uniq by (simp add: updateCartItem_unique)
next
  case (RemoveCartItem k)
  have "cartItems (removeCartItem st k) = filter (\<lambda>e. fst e \<noteq> k) (cartItems st)"
    by (simp add: removeCartItem_def jm_delete_def)
  then have "cart_unique (removeCartItem st k)"
    using uniq by (rule cart_unique_filtered)
  with RemoveCartItem show ?thesis by simp
next
  case (ClearCart w)
  have "cartItems (clearCart st w) = filter (\<lambda>e. ci_userId (snd e) \<noteq> w) (cartItems st)"
    using ok by (simp add: clearCart_eq)
  then have "cart_unique (clearCart st w)"
    using uniq by (rule cart_unique_filtered)
  with ClearCart show ?thesis by simp
qed

lemma new_MemStorage_cart: "cartItems new_MemStorage = []"
  by code_simp

lemma new_MemStorage_unique: "cart_unique new_MemStorage"
  by (simp add: cart_unique_def cart_lines_def jm_values_def new_MemStorage_cart)

lemma run_calls_unique:
  "store_ok st \<Longrightarrow> cart_unique st \<Longrightarrow> cart_unique (run_calls calls st)"
  unfolding run_calls_def
proof (induction calls arbitrary: st)
  case Nil
  then show ?case by simp
next
  case (Cons c calls)
  have "cart_unique (apply_call c st)"
  proof (cases c)
    case (CartCall cc)
    then show ?thesis
      using Cons.prems by (simp add: cart_call_unique store_ok_def)
  next
    case (CreateOrder orderData items now)
    then show ?thesis
      using Cons.prems(2) by (simp add: cart_unique_def cart_lines_def createOrder_frame)
  qed
  moreover have "store_ok (apply_call c st)"
    using Cons.prems(1) by (rule apply_call_store_ok)
  ultimately show ?case
    using Cons.IH by simp
qed

text \<open>Every store reached from the constructor is well-formed, with one line per pair.\<close>

lemma reachable_store_ok: "store_ok (run_calls calls new_MemStorage)"
  by (rule run_calls_store_ok) (rule new_MemStorage_ok)

lemma reachable_cart_unique: "cart_unique (run_calls calls new_MemStorage)"
  by (rule run_calls_unique) (rule new_MemStorage_ok, rule new_MemStorage_unique)

lemma demo_store_unique: "cart_unique demo_store"
  unfolding demo_store_def
  by (rule run_calls_unique) (rule new_MemStorage_ok, rule new_MemStorage_unique)

text \<open>
  Claim C3. Quantities are JavaScript numbers and \<open>+\<close> is their addition. In a well-formed
  store with at most one line per (user, product) pair, two successive \<open>addCartItem\<close> calls
  for the same user and product, with quantities \<open>q1\<close> and \<open>q2\<close>, leave exactly one line
  for the pair. When the product was not yet in the cart, its quantity is \<open>q1 + q2\<close>, which
  for integers \<open>a\<close> and \<open>b\<close> with \<open>|a + b| \<le> 2^53\<close> is the integer \<open>a + b\<close>; when the cart
  held a line with quantity \<open>q0\<close>, it is \<open>(q0 + q1) + q2\<close>. Each of the four mutating cart
  methods keeps the store well-formed and keeps the one-line-per-pair invariant.
\<close>

theorem add_twice_merges:
  assumes "store_ok st" and "cart_unique st"
  shows "(\<exists>item.
            cart_lines
              (fst (addCartItem
                 (fst (addCartItem st
                    \<lparr>ci_userId = u, ci_productId = p, ci_quantity = Some q1\<rparr>))
                 \<lparr>ci_userId = u, ci_productId = p, ci_quantity = Some q2\<rparr>)) u p = [item] \<and>
            (getCartItem st u p = None \<longrightarrow> ci_quantity item = Some (js_add q1 q2)) \<and>
            (\<forall>a b. getCartItem st u p = None \<and> q1 = Finite (of_int a) \<and>
                   q2 = Finite (of_int b) \<and> \<bar>a + b\<bar> \<le> 2 ^ 53 \<longrightarrow>
                   ci_quantity item = Some (Finite (of_int (a + b)))) \<and>
            (\<forall>e. getCartItem st u p = Some e \<longrightarrow>
                 ci_quantity item =
                   Some (js_add (js_add (ToNumber (ci_quantity e)) q1) q2))) \<and>
         (\<forall>c. store_ok (apply_cart_call c st) \<and> cart_unique (apply_cart_call c st))"
proof -
  let ?i1 = "\<lparr>ci_userId = u, ci_productId = p, ci_quantity = Some q1\<rparr>"
  let ?i2 = "\<lparr>ci_userId = u, ci_productId = p, ci_quantity = Some q2\<rparr>"
  let ?st1 = "fst (addCartItem st ?i1)"
  let ?r1 = "snd (addCartItem st ?i1)"
  let ?st2 = "fst (addCartItem ?st1 ?i2)"
  let ?r2 = "snd (addCartItem ?st1 ?i2)"
  have ok: "table_ok ci_id (cartItemId st) (cartItems st)"
    using assms(1) by (simp add: store_ok_def)
  have ok1: "table_ok ci_id (cartItemId ?st1) (cartItems ?st1)"
    using ok by (rule addCartItem_cart_ok)
  have uniq1: "cart_unique ?st1"
    using ok assms(2) by (rule addCartItem_unique)
  have l1: "cart_lines ?st1 u p = [?r1]"
    using addCartItem_lines(1) [OF ok assms(2), of ?i1 u p] by simp
  have q1: "ci_quantity ?r1 =
              (case getCartItem st u p of
                 None \<Rightarrow> Some q1
               | Some e \<Rightarrow> Some (js_add (ToNumber (ci_quantity e)) q1))"
    using addCartItem_lines(2) [OF ok assms(2), of ?i1]
    by (simp add: ToNumber_def split: option.splits)
  have g1: "getCartItem ?st1 u p = Some ?r1"
    by (simp add: getCartItem_hd l1)
  have q2: "ci_quantity ?r2 = Some (js_add (ToNumber (ci_quantity ?r1)) q2)"
    using addCartItem_lines(2) [OF ok1 uniq1, of ?i2] g1
    by (simp add: ToNumber_def split: option.splits)
  have l2: "cart_lines ?st2 u p = [?r2]"
    using addCartItem_lines(1) [OF ok1 uniq1, of ?i2 u p] by simp
  have fresh: "getCartItem st u p = None \<longrightarrow> ci_quantity ?r2 = Some (js_add q1 q2)"
    using q1 q2 by (simp add: ToNumber_def split: option.splits)
  have ints: "\<forall>a b. getCartItem st u p = None \<and> q1 = Finite (of_int a) \<and>
                   q2 = Finite (of_int b) \<and> \<bar>a + b\<bar> \<le> 2 ^ 53 \<longrightarrow>
                   ci_quantity ?r2 = Some (Finite (of_int (a + b)))"
  proof (intro allI impI)
    fix a b
    assume h: "getCartItem st u p = None \<and> q1 = Finite (of_int a) \<and>
                   q2 = Finite (of_int b) \<and> \<bar>a + b\<bar> \<le> 2 ^ 53"
    then have n: "getCartItem st u p = None" and e1: "q1 = Finite (of_int a)"
      and e2: "q2 = Finite (of_int b)" and s: "\<bar>a + b\<bar> \<le> 2 ^ 53"
      by blast+
    have "js_add (Finite (of_int a)) (Finite (of_int b)) = Finite (of_int (a + b))"
      using s by (rule js_add_safe_ints)
    then have "js_add q1 q2 = Finite (of_int (a + b))"
      by (simp only: e1 e2)
    with fresh n show "ci_quantity ?r2 = Some (Finite (of_int (a + b)))"
      by (simp only:)
  qed
  have held: "\<forall>e. getCartItem st u p = Some e \<longrightarrow>
                 ci_quantity ?r2 = Some (js_add (js_add (ToNumber (ci_quantity e)) q1) q2)"
    using q1 q2 by (simp add: ToNumber_def split: option.splits)
  from l2 fresh ints held have first: "\<exists>item. cart_lines ?st2 u p = [item] \<and>
            (getCartItem st u p = None \<longrightarrow> ci_quantity item = Some (js_add q1 q2)) \<and>
            (\<forall>a b. getCartItem st u p = None \<and> q1 = Finite (of_int a) \<and>
                   q2 = Finite (of_int b) \<and> \<bar>a + b\<bar> \<le> 2 ^ 53 \<longrightarrow>
                   ci_quantity item = Some (Finite (of_int (a + b)))) \<and>
            (\<forall>e. getCartItem st u p = Some e \<longrightarrow>
                 ci_quantity item =
                   Some (js_add (js_add (ToNumber (ci_quantity e)) q1) q2))"
    by (intro exI [of _ ?r2] conjI)
  have "\<forall>c. store_ok (apply_cart_call c st) \<and> cart_unique (apply_cart_call c st)"
    using assms ok by (simp add: cart_call_store_ok cart_call_unique)
  with first show ?thesis by blast
qed

theorem add_twice_merges_witness:
  "store_ok demo_store \<and> cart_unique demo_store \<and> getCartItem demo_store 1 19 = None \<and>
   \<bar>2 + 3 :: int\<bar> \<le> 2 ^ 53 \<and>
   (\<exists>item.
      cart_lines
        (fst (addCartItem
           (fst (addCartItem demo_store
              \<lparr>ci_userId = 1, ci_productId = 19, ci_quantity = Some (Finite (of_int 2))\<rparr>))
           \<lparr>ci_userId = 1, ci_productId = 19, ci_quantity = Some (Finite (of_int 3))\<rparr>))
        1 19 = [item] \<and>
      ci_quantity item = Some (Finite (of_int (2 + 3)))) \<and>
   store_ok (apply_cart_call (RemoveCartItem 2) demo_store) \<and>
   cart_unique (apply_cart_call (RemoveCartItem 2) demo_store)"
proof -
  note inst = add_twice_merges [OF demo_store_ok demo_store_unique, of 1 19
      "Finite (of_int 2)" "Finite (of_int 3)"]
  have n: "getCartItem demo_store 1 19 = None"
    by (simp add: getCartItem_def demo_cartItems jm_values_def)
  have small: "\<bar>2 + 3 :: int\<bar> \<le> 2 ^ 53"
    by simp
  from inst have
    "store_ok (apply_cart_call (RemoveCartItem 2) demo_store) \<and>
     cart_unique (apply_cart_call (RemoveCartItem 2) demo_store)"
    by blast
  moreover from inst obtain item where
    l: "cart_lines
        (fst (addCartItem
           (fst (addCartItem demo_store
              \<lparr>ci_userId = 1, ci_productId = 19, ci_quantity = Some (Finite (of_int 2))\<rparr>))
           \<lparr>ci_userId = 1, ci_productId = 19, ci_quantity = Some (Finite (of_int 3))\<rparr>))
        1 19 = [item]"
    and a: "\<forall>a b. getCartItem demo_store 1 19 = None \<and>
              Finite (of_int 2) = Finite (rat_of_int a) \<and>
              Finite (of_int 3) = Finite (rat_of_int b) \<and> \<bar>a + b\<bar> \<le> 2 ^ 53 \<longrightarrow>
              ci_quantity item = Some (Finite (of_int (a + b)))"
    by blast
  from a n small have "ci_quantity item = Some (Finite (of_int (2 + 3)))"
    by blast
  ultimately show ?thesis
    using demo_store_ok demo_store_unique n small l by blast
qed

subsection \<open>Orders keep the prices they were created with\<close>

lemma jm_get_append_fresh:
  assumes "\<forall>e \<in> set m. fst e < k"
  shows "jm_get (m @ [(k, v)]) k' = (if k' = k then Some v else jm_get m k')"
proof -
  have "map_of m k = None"
    using assms by (force simp: map_of_eq_None_iff)
  then show ?thesis
    by (auto simp: jm_get_def map_add_def split: option.splits)
qed

lemma truncated_order_item_fields:
  "oi_price (InsertOrderItem.truncate x) = oi_price x"
  "oi_productId (InsertOrderItem.truncate x) = oi_productId x"
  "oi_quantity (InsertOrderItem.truncate x) = oi_quantity x"
  by (simp_all add: InsertOrderItem.defs)

lemma createOrder_effect:
  assumes ok: "orders_ok st"
  shows "o_id (snd (createOrder st orderData items now)) = orderId st"
    and "orderId (fst (createOrder st orderData items now)) = orderId st + 1"
    and "jm_get (orders (fst (createOrder st orderData items now))) k =
           (if k = orderId st then Some (snd (createOrder st orderData items now))
            else jm_get (orders st) k)"
    and "map InsertOrderItem.truncate
           (order_lines (fst (createOrder st orderData items now)) (orderId st)) =
         map (\<lambda>item. item\<lparr>oi_orderId := orderId st\<rparr>) items"
    and "k < orderId st \<Longrightarrow>
         order_lines (fst (createOrder st orderData items now)) k = order_lines st k"
proof -
  let ?k = "orderId st"
  let ?order = "InsertOrder.extend orderData (Order.fields ?k now)"
  from createOrder_eq [OF ok, of orderData items now] obtain new n where
    c: "createOrder st orderData items now =
       (st\<lparr>orderId := ?k + 1, orders := orders st @ [(?k, ?order)],
           orderItemId := n, orderItems := orderItems st @ new\<rparr>, ?order)"
    and m: "map (\<lambda>e. InsertOrderItem.truncate (snd e)) new =
            map (\<lambda>item. item\<lparr>oi_orderId := ?k\<rparr>) items"
    and o: "\<forall>e \<in> set new. oi_orderId (snd e) = ?k"
    by blast
  have below: "\<forall>e \<in> set (orders st). fst e < ?k"
    using ok by (simp add: orders_ok_def table_ok_def)
  have old: "\<forall>e \<in> set (orderItems st). oi_orderId (snd e) < ?k"
    using ok by (simp add: orders_ok_def)
  show "o_id (snd (createOrder st orderData items now)) = ?k"
    by (simp add: c new_order_fields)
  show "orderId (fst (createOrder st orderData items now)) = ?k + 1"
    by (simp add: c)
  show "jm_get (orders (fst (createOrder st orderData items now))) k =
           (if k = ?k then Some (snd (createOrder st orderData items now))
            else jm_get (orders st) k)"
    by (simp add: c jm_get_append_fresh [OF below])
  have none: "filter (\<lambda>item. oi_orderId item = ?k) (map snd (orderItems st)) = []"
    using old by (auto simp: filter_empty_conv)
  have all: "filter (\<lambda>item. oi_orderId item = ?k) (map snd new) = map snd new"
    using o by (auto simp: filter_id_conv)
  have "order_lines (fst (createOrder st orderData items now)) ?k = map snd new"
    by (simp add: c order_lines_def jm_values_def none all)
  then show "map InsertOrderItem.truncate
           (order_lines (fst (createOrder st orderData items now)) ?k) =
         map (\<lambda>item. item\<lparr>oi_orderId := ?k\<rparr>) items"
    using m by (simp add: comp_def)
  show "order_lines (fst (createOrder st orderData items now)) k = order_lines st k"
    if "k < ?k"
  proof -
    have "filter (\<lambda>item. oi_orderId item = k) (map snd new) = []"
      using o that by (auto simp: filter_empty_conv)
    then show ?thesis
      by (simp add: c order_lines_def jm_values_def)
  qed
qed

lemma apply_step_keeps_order:
  assumes ok: "orders_ok s" and k: "k < orderId s"
  shows "orders_ok (apply_step x s) \<and> k < orderId (apply_step x s) \<and>
         jm_get (orders (apply_step x s)) k = jm_get (orders s) k \<and>
         order_lines (apply_step x s) k = order_lines s k"
proof (cases x)
  case (ProductsReplaced ps)
  then show ?thesis
    using ok k by (simp add: orders_ok_def order_lines_def)
next
  case (Call c)
  show ?thesis
  proof (cases c)
    case (CartCall cc)
    with Call show ?thesis
      using ok k by (simp add: cart_call_orders_ok cart_call_frame order_lines_def)
  next
    case (CreateOrder orderData items now)
    with Call show ?thesis
      using ok k by (simp add: createOrder_orders_ok createOrder_effect(2,3,5) [OF ok])
  qed
qed

lemma run_steps_keeps_order:
  assumes "orders_ok s" and "k < orderId s"
  shows "jm_get (orders (run_steps steps s)) k = jm_get (orders s) k \<and>
         order_lines (run_steps steps s) k = order_lines s k"
  using assms unfolding run_steps_def
proof (induction steps arbitrary: s)
  case Nil
  then show ?case by simp
next
  case (Cons x steps)
  from apply_step_keeps_order [OF Cons.prems, of x] Cons.IH [of "apply_step x s"]
  show ?case by simp
qed

text \<open>
  Claim C4. After \<open>createOrder(header, items)\<close> on a well-formed store, and after any
  further mutating calls and any replacement of the product table, \<open>getOrder\<close> of the
  new order's id returns one line per item passed in, in order, each with the price (and
  the product id and quantity) that was passed in. The proof does not need \<open>items\<close> to be
  non-empty.
\<close>

theorem order_prices_are_frozen:
  assumes "store_ok st"
  shows "\<exists>r. getOrder (run_steps steps (fst (createOrder st orderData items now)))
                (o_id (snd (createOrder st orderData items now))) = Some r \<and>
              map oi_price (o_items r) = map oi_price items \<and>
              map oi_productId (o_items r) = map oi_productId items \<and>
              map oi_quantity (o_items r) = map oi_quantity items"
proof -
  let ?k = "orderId st"
  let ?st1 = "fst (createOrder st orderData items now)"
  let ?order = "snd (createOrder st orderData items now)"
  let ?s = "run_steps steps ?st1"
  let ?join = "\<lambda>item. OrderItem.extend item
                 (OrderItemWithProduct.fields (getProduct ?s (oi_productId item)))"
  have ok: "orders_ok st"
    using assms by (simp add: store_ok_def)
  have ok1: "orders_ok ?st1"
    using ok by (rule createOrder_orders_ok)
  have k1: "?k < orderId ?st1"
    by (simp add: createOrder_effect(2) [OF ok])
  have id: "o_id ?order = ?k"
    by (rule createOrder_effect(1) [OF ok])
  have "jm_get (orders ?st1) ?k = Some ?order"
    by (simp add: createOrder_effect(3) [OF ok])
  then have g: "jm_get (orders ?s) ?k = Some ?order"
    using run_steps_keeps_order [OF ok1 k1, of steps] by simp
  have l: "order_lines ?s ?k = order_lines ?st1 ?k"
    using run_steps_keeps_order [OF ok1 k1, of steps] by simp
  let ?r = "Order.extend ?order (OrderWithItems.fields (map ?join (order_lines ?s ?k)))"
  have r: "getOrder ?s (o_id ?order) = Some ?r"
    unfolding id order_lines_def by (rule getOrder_eq [OF g])
  have t: "map InsertOrderItem.truncate (order_lines ?s ?k) =
           map (\<lambda>item. item\<lparr>oi_orderId := ?k\<rparr>) items"
    unfolding l by (rule createOrder_effect(4) [OF ok])
  have "map oi_price (o_items ?r) = map oi_price (map InsertOrderItem.truncate (order_lines ?s ?k))"
    by (simp add: order_join_fields order_item_join_fields truncated_order_item_fields comp_def)
  then have price: "map oi_price (o_items ?r) = map oi_price items"
    by (simp add: t comp_def)
  have "map oi_productId (o_items ?r) =
        map oi_productId (map InsertOrderItem.truncate (order_lines ?s ?k))"
    by (simp add: order_join_fields order_item_join_fields truncated_order_item_fields comp_def)
  then have product: "map oi_productId (o_items ?r) = map oi_productId items"
    by (simp add: t comp_def)
  have "map oi_quantity (o_items ?r) =
        map oi_quantity (map InsertOrderItem.truncate (order_lines ?s ?k))"
    by (simp add: order_join_fields order_item_join_fields truncated_order_item_fields comp_def)
  then have quantity: "map oi_quantity (o_items ?r) = map oi_quantity items"
    by (simp add: t comp_def)
  from r price product quantity show ?thesis
    by (intro exI [of _ ?r] conjI)
qed

theorem order_prices_are_frozen_witness:
  "store_ok demo_store \<and>
   (\<exists>r. getOrder
           (run_steps demo_later_steps
              (fst (createOrder demo_store
                      \<lparr>o_userId = 2, o_total = 5316 / 100, o_status = ''pending''\<rparr>
                      demo_order_items 1700000000000)))
           (o_id (snd (createOrder demo_store
                      \<lparr>o_userId = 2, o_total = 5316 / 100, o_status = ''pending''\<rparr>
                      demo_order_items 1700000000000))) = Some r \<and>
         map oi_price (o_items r) = [1999 / 100])"
proof -
  have "map oi_price demo_order_items = [1999 / 100]"
    by (simp add: demo_order_items_def)
  with order_prices_are_frozen [OF demo_store_ok, of demo_later_steps
      "\<lparr>o_userId = 2, o_total = 5316 / 100, o_status = ''pending''\<rparr>" demo_order_items
      1700000000000]
  show ?thesis
    using demo_store_ok by auto
qed

subsection \<open>The default order of a product query\<close>

lemma product_ids_ascending:
  assumes "store_ok st"
  shows "sorted_wrt (<) (map p_id (jm_values (products st)))"
proof -
  have ok: "table_ok p_id (productId st) (products st)"
    using assms by (simp add: store_ok_def)
  have "map p_id (jm_values (products st)) = map fst (products st)"
    using table_ok_ident [OF ok] by (simp add: jm_values_def)
  then show ?thesis
    using ok by (simp add: table_ok_def)
qed

lemma ascending_filter:
  "sorted_wrt (<) (map p_id xs) \<Longrightarrow> sorted_wrt (<) (map p_id (filter P xs))"
  by (induction xs) auto

lemma ascending_slice:
  "sorted_wrt (<) (map p_id xs) \<Longrightarrow> sorted_wrt (<) (map p_id (js_slice xs a b))"
  by (simp add: js_slice_def Let_def sorted_wrt_take sorted_wrt_drop
      take_map [symmetric] drop_map [symmetric])

lemma ascending_page:
  "sorted_wrt (<) (map p_id xs) \<Longrightarrow> sorted_wrt (<) (map p_id (page_stage options xs))"
  by (simp add: page_stage_def ascending_slice split: option.splits)

lemma sort_by_id_of_ascending:
  assumes "sorted_wrt (<) (map p_id xs)"
  shows "js_sort_asc p_id xs = xs"
proof -
  have "sorted (map p_id xs)"
    using assms by (simp add: strict_sorted_iff)
  then show ?thesis
    by (simp add: js_sort_asc_def sort_key_id_if_sorted)
qed

lemma default_sort_stage:
  assumes "\<not> named_sort (po_sort opts)" and "sorted_wrt (<) (map p_id xs)"
  shows "sort_stage (Some opts) xs = js_sort_asc p_id xs"
proof (cases "po_sort opts")
  case None
  then show ?thesis
    using assms(2) by (simp add: sort_stage_def optional_chain_def sort_by_id_of_ascending)
next
  case (Some s)
  then show ?thesis
    using assms by (simp add: sort_stage_def optional_chain_def named_sort_def
        sort_by_id_of_ascending)
qed

text \<open>
  Claim C7. \<open>getProducts\<close> is the slice of the sorted list of the products that match
  the filter: filter first, then sort, then slice. In a well-formed store, when the sort
  key is absent (or empty, or none of the four named keys), the sorted list is the
  matching products in ascending order of id, and so is the answer.
\<close>

theorem default_order_is_by_id:
  "getProducts st (Some opts) =
     page_stage (Some opts)
       (sort_stage (Some opts) (filter (product_matches opts) (jm_values (products st)))) \<and>
   (store_ok st \<and> \<not> named_sort (po_sort opts) \<longrightarrow>
      sort_stage (Some opts) (filter (product_matches opts) (jm_values (products st))) =
        js_sort_asc p_id (filter (product_matches opts) (jm_values (products st))) \<and>
      sorted_wrt (<) (map p_id (getProducts st (Some opts))))"
proof (intro conjI impI)
  show stages: "getProducts st (Some opts) =
     page_stage (Some opts)
       (sort_stage (Some opts) (filter (product_matches opts) (jm_values (products st))))"
    by (simp add: getProducts_stages filter_stage_matches)
  assume h: "store_ok st \<and> \<not> named_sort (po_sort opts)"
  let ?xs = "filter (product_matches opts) (jm_values (products st))"
  have asc: "sorted_wrt (<) (map p_id ?xs)"
    using h by (simp add: product_ids_ascending ascending_filter)
  show by_id: "sort_stage (Some opts) ?xs = js_sort_asc p_id ?xs"
    using h asc by (simp add: default_sort_stage)
  have "sorted_wrt (<) (map p_id (js_sort_asc p_id ?xs))"
    using asc by (simp add: sort_by_id_of_ascending)
  then show "sorted_wrt (<) (map p_id (getProducts st (Some opts)))"
    unfolding stages by_id by (rule ascending_page)
qed

theorem default_order_is_by_id_witness:
  "store_ok new_MemStorage \<and> \<not> named_sort (po_sort featured_query) \<and>
   getProducts new_MemStorage (Some featured_query) =
     page_stage (Some featured_query)
       (js_sort_asc p_id
          (filter (product_matches featured_query) (jm_values (products new_MemStorage)))) \<and>
   sorted_wrt (<) (map p_id (getProducts new_MemStorage (Some featured_query))) \<and>
   map p_id (getProducts new_MemStorage (Some featured_query)) = [1, 2, 3, 4]"
proof -
  have n: "\<not> named_sort (po_sort featured_query)"
    by (simp add: featured_query_def no_options_def named_sort_def)
  have ids: "map p_id (getProducts new_MemStorage (Some featured_query)) = [1, 2, 3, 4]"
    by code_simp
  from default_order_is_by_id [of new_MemStorage featured_query] new_MemStorage_ok n ids
  show ?thesis by simp
qed

subsection \<open>Orders without line items\<close>

text \<open>
  Claim C2, as stated, fails for \<open>MemStorage.createOrder\<close>: called with an empty item
  list on the freshly constructed store it persists an order header.
\<close>

theorem createOrder_empty_items_counterexample:
  "jm_size (orders new_MemStorage) = 0 \<and>
   jm_size (orders (fst (createOrder new_MemStorage
      \<lparr>o_userId = 1, o_total = 0, o_status = ''pending''\<rparr> [] 1700000000000))) = 1"
  by code_simp

text \<open>
  Claim C2, amended. The check is in the route: \<open>POST /api/orders\<close> answers a request
  whose \<open>items\<close> is an empty array with status 400 (401 without a login) before it calls
  \<open>createOrder\<close>, and the store, with it the order table, is unchanged.
\<close>

theorem order_route_rejects_empty_items:
  assumes "rq_items req = Some []"
  shows "fst (post_orders parse_order parse_item now st req) = st \<and>
         orders (fst (post_orders parse_order parse_item now st req)) = orders st \<and>
         snd (post_orders parse_order parse_item now st req) =
           (if rq_isAuthenticated req then (400, Message ''Order must contain items'')
            else (401, Message ''Not authenticated''))"
  using assms by (simp add: post_orders_def)

theorem order_route_rejects_empty_items_witness:
  "rq_items \<lparr>rq_isAuthenticated = True, rq_user_id = 1, rq_orderData = (), rq_items = Some []\<rparr>
     = Some [] \<and>
   fst (post_orders (\<lambda>j u. Some \<lparr>o_userId = u, o_total = 0, o_status = ''pending''\<rparr>)
          (\<lambda>j. None) 1700000000000 demo_store
          \<lparr>rq_isAuthenticated = True, rq_user_id = 1, rq_orderData = (), rq_items = Some []\<rparr>)
     = demo_store \<and>
   snd (post_orders (\<lambda>j u. Some \<lparr>o_userId = u, o_total = 0, o_status = ''pending''\<rparr>)
          (\<lambda>j. None) 1700000000000 demo_store
          \<lparr>rq_isAuthenticated = True, rq_user_id = 1, rq_orderData = (), rq_items = Some []\<rparr>)
     = (400, Message ''Order must contain items'')"
  using order_route_rejects_empty_items
    [of "\<lparr>rq_isAuthenticated = True, rq_user_id = 1, rq_orderData = (), rq_items = Some []\<rparr>"
        "\<lambda>j u. Some \<lparr>o_userId = u, o_total = 0, o_status = ''pending''\<rparr>" "\<lambda>j. None"
        1700000000000 demo_store]
  by simp

subsection \<open>The count of a product query\<close>

lemma page_stage_without_paging:
  "page_stage (Some (without_paging opts)) xs = xs"
  by (simp add: page_stage_def without_paging_def optional_chain_def)

lemma length_sort_stage: "length (sort_stage options xs) = length xs"
  by (simp add: sort_stage_def js_sort_asc_def js_sort_desc_def split: option.splits)

text \<open>
  Where the two methods agree: when the query does not ask for featured products, the
  count is the length of the unpaged list.
\<close>

lemma count_agrees_unless_featured:
  assumes "\<not> truthy_boolean (po_featured opts)"
  shows "getProductCount st (Some (count_options_of opts)) =
         int (length (getProducts st (Some (without_paging opts))))"
proof -
  have "featured_matches (po_featured opts) = (\<lambda>p. True)"
    using assms by (auto simp: featured_matches_def truthy_boolean_def fun_eq_iff)
  then have "product_matches (without_paging opts) = count_matches (count_options_of opts)"
    by (simp add: product_matches_def count_matches_def without_paging_def count_options_of_def
        fun_eq_iff)
  then show ?thesis
    by (simp add: getProductCount_matches getProducts_stages filter_stage_matches
        page_stage_without_paging length_sort_stage)
qed

text \<open>
  Claim C1 fails on the code. For the home page's query of the featured products on the
  freshly constructed store, \<open>getProducts\<close> without paging returns the 7 featured
  products, while \<open>getProductCount\<close>, which has no featured filter, answers 20, the size
  of the whole catalogue.
\<close>

theorem count_ignores_featured:
  "getProductCount new_MemStorage (Some (count_options_of featured_query)) = 20 \<and>
   length (getProducts new_MemStorage (Some (without_paging featured_query))) = 7 \<and>
   map p_id (getProducts new_MemStorage (Some (without_paging featured_query))) =
     [1, 2, 3, 4, 13, 16, 20]"
  by code_simp

subsection \<open>The order total of the checkout page\<close>

lemma cart_amounts_Cons:
  "cart_amounts (item # cart) =
     (case ci_product item of
        None \<Rightarrow> None
      | Some product \<Rightarrow>
          map_option (\<lambda>amounts. line_amount product (ci_quantity item) # amounts)
            (cart_amounts cart))"
  by (simp add: cart_amounts_def split: option.splits)

lemma cart_amounts_defined:
  "\<forall>item \<in> set cart. ci_product item \<noteq> None \<Longrightarrow> \<exists>amounts. cart_amounts cart = Some amounts"
proof (induction cart)
  case Nil
  then show ?case by (simp add: cart_amounts_def)
next
  case (Cons item cart)
  then obtain amounts product where "cart_amounts cart = Some amounts"
    and "ci_product item = Some product"
    by auto
  then show ?case
    by (simp add: cart_amounts_Cons)
qed

lemma posted_items_defined:
  "\<forall>item \<in> set cart. ci_product item \<noteq> None \<Longrightarrow> \<exists>lines. posted_items cart = Some lines"
proof (induction cart)
  case Nil
  then show ?case by (simp add: posted_items_def)
next
  case (Cons item cart)
  then obtain lines product where "posted_items cart = Some lines"
    and "ci_product item = Some product"
    by auto
  then show ?case
    by (simp add: posted_items_def)
qed

text \<open>The \<open>reduce\<close> of the page is the sum of the line amounts, from any start value.\<close>

lemma subtotal_reduce_is_sum:
  "cart_amounts cart = Some amounts \<Longrightarrow>
   subtotal_reduce acc cart = Some (foldl js_add acc amounts)"
proof (induction cart arbitrary: acc amounts)
  case Nil
  then show ?case by (simp add: cart_amounts_def)
next
  case (Cons item cart)
  from Cons.prems obtain product rest where p: "ci_product item = Some product"
    and r: "cart_amounts cart = Some rest"
    and a: "amounts = line_amount product (ci_quantity item) # rest"
    by (auto simp: cart_amounts_Cons split: option.splits)
  show ?case
    using Cons.IH [OF r] by (simp add: p a line_amount_def)
qed

text \<open>Each amount is the price of the product of its line times the quantity of the line.\<close>

lemma cart_amounts_lines:
  "cart_amounts cart = Some amounts \<Longrightarrow>
   list_all2 (\<lambda>item amount. \<exists>product. ci_product item = Some product \<and>
                amount = js_mul (Number (p_price product)) (ToNumber (ci_quantity item)))
     cart amounts"
proof (induction cart arbitrary: amounts)
  case Nil
  then show ?case by (simp add: cart_amounts_def)
next
  case (Cons item cart)
  from Cons.prems obtain product rest where p: "ci_product item = Some product"
    and r: "cart_amounts cart = Some rest"
    and a: "amounts = line_amount product (ci_quantity item) # rest"
    by (auto simp: cart_amounts_Cons split: option.splits)
  show ?case
    using Cons.IH [OF r] by (simp add: p a line_amount_def)
qed

lemma checkout_summary_eq:
  assumes "cart_amounts cart = Some amounts"
  shows "checkout_summary cart =
         Some \<lparr>os_subtotal = js_sum amounts,
               os_shippingCost =
                 (if js_less (Finite 0) (js_sum amounts) then js_literal (999 / 100)
                  else Finite 0),
               os_tax = js_mul (js_sum amounts) (js_literal (8 / 100)),
               os_total =
                 js_add
                   (js_add (js_sum amounts)
                      (if js_less (Finite 0) (js_sum amounts) then js_literal (999 / 100)
                       else Finite 0))
                   (js_mul (js_sum amounts) (js_literal (8 / 100)))\<rparr>"
  by (simp add: checkout_summary_def Let_def js_sum_def subtotal_reduce_is_sum [OF assms])

lemma cart_amounts_Some_products:
  "cart_amounts cart = Some amounts \<Longrightarrow> \<forall>item \<in> set cart. ci_product item \<noteq> None"
  by (induction cart arbitrary: amounts) (auto simp: cart_amounts_Cons split: option.splits)

text \<open>The amounts depend on the prices and quantities of the lines only.\<close>

lemma cart_amounts_of_lines:
  "cart_amounts cart =
     those (map (\<lambda>(price, quantity).
                   map_option (\<lambda>d. js_mul (Number d) (ToNumber quantity)) price)
              (map (\<lambda>item. (map_option p_price (ci_product item), ci_quantity item)) cart))"
  by (simp add: cart_amounts_def line_amount_def comp_def option.map_comp)

lemma demo_cart_lines:
  "map (\<lambda>item. (map_option p_price (ci_product item), ci_quantity item))
     (getCartItems demo_store 2) = [(Some (1999 / 100), Some (Finite 2))]"
  by code_simp

lemma two_line_cart_lines:
  "map (\<lambda>item. (map_option p_price (ci_product item), ci_quantity item)) two_line_cart =
     [(Some (1999 / 100), Some (Finite 2)), (Some (12999 / 100), Some (Finite 1))]"
  by code_simp

lemma ToNumber_Some: "ToNumber (Some n) = n"
  by (simp add: ToNumber_def)

lemma scenario_amounts:
  "js_mul (Number (1999 / 100)) (Finite 2) = js_literal (3998 / 100)"
  "js_mul (Number (12999 / 100)) (Finite 1) = js_literal (12999 / 100)"
  by code_simp+

lemma one_line_numbers:
  "js_sum [js_literal (3998 / 100)] = js_literal (3998 / 100)"
  "js_less (Finite 0) (js_literal (3998 / 100))"
  "js_mul (js_literal (3998 / 100)) (js_literal (8 / 100)) = js_literal (31984 / 10000)"
  "js_add (js_add (js_literal (3998 / 100)) (js_literal (999 / 100)))
     (js_literal (31984 / 10000)) = js_literal (531684 / 10000)"
  by code_simp+

lemma two_line_numbers:
  "js_sum [js_literal (3998 / 100), js_literal (12999 / 100)] = js_literal (16997 / 100)"
  "js_less (Finite 0) (js_literal (16997 / 100))"
  "js_mul (js_literal (16997 / 100)) (js_literal (8 / 100)) = js_literal (135976 / 10000)"
  "js_add (js_add (js_literal (16997 / 100)) (js_literal (999 / 100)))
     (js_literal (135976 / 10000)) = js_literal (1935576 / 10000)"
  by code_simp+

text \<open>
  A sum of two amounts that is not the double of the decimal sum: 19.99 + 39.99 is
  59.980000000000004.
\<close>

lemma inexact_sum:
  "js_sum [js_literal (1999 / 100), js_literal (3999 / 100)] =
     Finite (4220717275776287 / 70368744177664)"
  "js_literal (5998 / 100) \<noteq> Finite (4220717275776287 / 70368744177664)"
  by code_simp+

lemma demo_cart_amounts:
  "cart_amounts (getCartItems demo_store 2) = Some [js_literal (3998 / 100)]"
  by (simp only: cart_amounts_of_lines demo_cart_lines list.map prod.case option.map
      those.simps option.case ToNumber_Some scenario_amounts)

lemma two_line_cart_amounts:
  "cart_amounts two_line_cart = Some [js_literal (3998 / 100), js_literal (12999 / 100)]"
  by (simp only: cart_amounts_of_lines two_line_cart_lines list.map prod.case option.map
      those.simps option.case ToNumber_Some scenario_amounts)

text \<open>
  Claim C6. Sums and products are those of JavaScript numbers, and a decimal literal
  stands for the double nearest to it. For every cart whose lines all have their product
  the page computes a summary: its subtotal is the sum, from 0 and in the order of the
  lines, of one amount for each line, the price of its product times its quantity;
  shipping is 9.99 exactly when the subtotal is greater than 0, tax is the subtotal times
  0.08, the total is subtotal plus shipping plus tax, and the order that is posted exists
  and carries that total. For a cart of two items of a product priced 19.99 the four
  numbers are 39.98, 9.99, 3.1984 and 53.1684; for the cart of two lines with the amounts
  39.98 and 129.99 they are 169.97, 9.99, 13.5976 and 193.5576.
\<close>

theorem checkout_total_formula:
  "((\<forall>item \<in> set cart. ci_product item \<noteq> None) \<longrightarrow>
      (\<exists>amounts s body.
         cart_amounts cart = Some amounts \<and>
         list_all2 (\<lambda>item amount. \<exists>product. ci_product item = Some product \<and>
                      amount = js_mul (Number (p_price product)) (ToNumber (ci_quantity item)))
           cart amounts \<and>
         checkout_summary cart = Some s \<and>
         os_subtotal s = js_sum amounts \<and>
         os_shippingCost s =
           (if js_less (Finite 0) (os_subtotal s) then js_literal (999 / 100) else Finite 0) \<and>
         os_tax s = js_mul (os_subtotal s) (js_literal (8 / 100)) \<and>
         os_total s = js_add (js_add (os_subtotal s) (os_shippingCost s)) (os_tax s) \<and>
         createOrderMutation_body uid cart = Some body \<and>
         pd_total body = os_total s)) \<and>
   cart_amounts (getCartItems demo_store 2) = Some [js_literal (3998 / 100)] \<and>
   checkout_summary (getCartItems demo_store 2) =
     Some \<lparr>os_subtotal = js_literal (3998 / 100), os_shippingCost = js_literal (999 / 100),
           os_tax = js_literal (31984 / 10000), os_total = js_literal (531684 / 10000)\<rparr> \<and>
   cart_amounts two_line_cart = Some [js_literal (3998 / 100), js_literal (12999 / 100)] \<and>
   checkout_summary two_line_cart =
     Some \<lparr>os_subtotal = js_literal (16997 / 100), os_shippingCost = js_literal (999 / 100),
           os_tax = js_literal (135976 / 10000), os_total = js_literal (1935576 / 10000)\<rparr>"
proof (intro conjI impI)
  assume all: "\<forall>item \<in> set cart. ci_product item \<noteq> None"
  then obtain amounts where a: "cart_amounts cart = Some amounts"
    using cart_amounts_defined by blast
  from all obtain lines where l: "posted_items cart = Some lines"
    using posted_items_defined by blast
  let ?sub = "js_sum amounts"
  let ?ship = "if js_less (Finite 0) ?sub then js_literal (999 / 100) else Finite 0"
  let ?tax = "js_mul ?sub (js_literal (8 / 100))"
  let ?total = "js_add (js_add ?sub ?ship) ?tax"
  let ?s = "\<lparr>os_subtotal = ?sub, os_shippingCost = ?ship, os_tax = ?tax, os_total = ?total\<rparr>"
  let ?body = "\<lparr>pd_total = ?total, pd_status = ''pending'', pd_userId = uid, pd_items = lines\<rparr>"
  have s: "checkout_summary cart = Some ?s"
    using a by (rule checkout_summary_eq)
  have b: "createOrderMutation_body uid cart = Some ?body"
    by (simp add: createOrderMutation_body_def s l)
  show "\<exists>amounts s body.
         cart_amounts cart = Some amounts \<and>
         list_all2 (\<lambda>item amount. \<exists>product. ci_product item = Some product \<and>
                      amount = js_mul (Number (p_price product)) (ToNumber (ci_quantity item)))
           cart amounts \<and>
         checkout_summary cart = Some s \<and>
         os_subtotal s = js_sum amounts \<and>
         os_shippingCost s =
           (if js_less (Finite 0) (os_subtotal s) then js_literal (999 / 100) else Finite 0) \<and>
         os_tax s = js_mul (os_subtotal s) (js_literal (8 / 100)) \<and>
         os_total s = js_add (js_add (os_subtotal s) (os_shippingCost s)) (os_tax s) \<and>
         createOrderMutation_body uid cart = Some body \<and>
         pd_total body = os_total s"
    using a s b cart_amounts_lines [OF a]
    by (intro exI [of _ amounts] exI [of _ ?s] exI [of _ ?body]) simp
next
  show "cart_amounts (getCartItems demo_store 2) = Some [js_literal (3998 / 100)]"
    by (rule demo_cart_amounts)
next
  show "checkout_summary (getCartItems demo_store 2) =
     Some \<lparr>os_subtotal = js_literal (3998 / 100), os_shippingCost = js_literal (999 / 100),
           os_tax = js_literal (31984 / 10000), os_total = js_literal (531684 / 10000)\<rparr>"
    by (simp only: checkout_summary_eq [OF demo_cart_amounts] one_line_numbers if_True)
next
  show "cart_amounts two_line_cart = Some [js_literal (3998 / 100), js_literal (12999 / 100)]"
    by (rule two_line_cart_amounts)
next
  show "checkout_summary two_line_cart =
     Some \<lparr>os_subtotal = js_literal (16997 / 100), os_shippingCost = js_literal (999 / 100),
           os_tax = js_literal (135976 / 10000), os_total = js_literal (1935576 / 10000)\<rparr>"
    by (simp only: checkout_summary_eq [OF two_line_cart_amounts] two_line_numbers if_True)
qed

theorem checkout_total_formula_witness:
  "None \<notin> ci_product ` set two_line_cart \<and>
   (\<exists>body. createOrderMutation_body 3 two_line_cart = Some body \<and>
      pd_total body = js_literal (1935576 / 10000)) \<and>
   js_literal (16997 / 100) = js_sum [js_literal (3998 / 100), js_literal (12999 / 100)] \<and>
   js_literal (999 / 100) =
     (if js_less (Finite 0) (js_literal (16997 / 100)) then js_literal (999 / 100)
      else Finite 0) \<and>
   js_literal (135976 / 10000) = js_mul (js_literal (16997 / 100)) (js_literal (8 / 100)) \<and>
   js_literal (1935576 / 10000) =
     js_add (js_add (js_literal (16997 / 100)) (js_literal (999 / 100)))
       (js_literal (135976 / 10000))"
proof -
  note inst = checkout_total_formula [of two_line_cart 3]
  let ?s = "\<lparr>os_subtotal = js_literal (16997 / 100), os_shippingCost = js_literal (999 / 100),
             os_tax = js_literal (135976 / 10000), os_total = js_literal (1935576 / 10000)\<rparr>"
  from inst have A: "cart_amounts two_line_cart =
      Some [js_literal (3998 / 100), js_literal (12999 / 100)]"
    and S: "checkout_summary two_line_cart = Some ?s"
    by simp_all
  have products: "\<forall>item \<in> set two_line_cart. ci_product item \<noteq> None"
    using A by (rule cart_amounts_Some_products)
  from inst products obtain amounts s body where
    a: "cart_amounts two_line_cart = Some amounts"
    and s: "checkout_summary two_line_cart = Some s"
    and sub: "os_subtotal s = js_sum amounts"
    and ship: "os_shippingCost s =
           (if js_less (Finite 0) (os_subtotal s) then js_literal (999 / 100) else Finite 0)"
    and tax: "os_tax s = js_mul (os_subtotal s) (js_literal (8 / 100))"
    and tot: "os_total s = js_add (js_add (os_subtotal s) (os_shippingCost s)) (os_tax s)"
    and b: "createOrderMutation_body 3 two_line_cart = Some body"
    and pt: "pd_total body = os_total s"
    by blast
  have am: "amounts = [js_literal (3998 / 100), js_literal (12999 / 100)]"
    using a A by simp
  have sv: "s = ?s"
    using s S by simp
  have "None \<notin> ci_product ` set two_line_cart"
    using products by force
  moreover have "\<exists>body. createOrderMutation_body 3 two_line_cart = Some body \<and>
      pd_total body = js_literal (1935576 / 10000)"
    using b pt sv by simp
  moreover have
    "js_literal (16997 / 100) = js_sum [js_literal (3998 / 100), js_literal (12999 / 100)]"
    using sub am sv by simp
  moreover have "js_literal (999 / 100) =
     (if js_less (Finite 0) (js_literal (16997 / 100)) then js_literal (999 / 100)
      else Finite 0)"
    using ship sv by simp
  moreover have
    "js_literal (135976 / 10000) = js_mul (js_literal (16997 / 100)) (js_literal (8 / 100))"
    using tax sv by simp
  moreover have "js_literal (1935576 / 10000) =
     js_add (js_add (js_literal (16997 / 100)) (js_literal (999 / 100)))
       (js_literal (135976 / 10000))"
    using tot sv by simp
  ultimately show ?thesis
    by (intro conjI)
qed

end
